theory Spec2Isabelle
  imports Main "HOL-Library.Word" "HOL-Library.Monad_Syntax"
begin

unbundle bit_operations_syntax

section \<open>Data model\<close>

text \<open>
  Go's \<open>byte\<close> is an 8-bit word, \<open>uint32\<close> a 32-bit word, \<open>int\<close> and \<open>int64\<close> 64-bit
  words (addition wraps).  Lengths and positions inside a slice are natural numbers: they
  are bounded by the slice, so they never overflow.  A \<open>nil\<close> slice and an empty slice are
  both the empty list (the code only ever takes their length).  Time stamps are abstract
  natural numbers.
\<close>

type_synonym byte = "8 word"
type_synonym bytes = "byte list"

text \<open>
  The two big-endian reads of the code: \<open>int(hi)<<8 | int(lo)\<close>, a 64-bit \<open>int\<close> that
  stays below 65536, and \<open>uint16(hi)<<8 | uint16(lo)\<close>.
\<close>

definition be16_int :: "byte \<Rightarrow> byte \<Rightarrow> nat" where
  "be16_int hi lo = push_bit 8 (unat hi) OR unat lo"

definition be16_uint16 :: "byte \<Rightarrow> byte \<Rightarrow> 16 word" where
  "be16_uint16 hi lo = push_bit 8 (ucast hi) OR ucast lo"

subsection \<open>packet.go: FlowKey and PacketInfo\<close>

record FlowKey =
  fk_SrcIP :: string
  fk_DstIP :: string
  fk_SrcPort :: string
  fk_DstPort :: string
  fk_Proto :: string

text \<open>The zero value \<open>FlowKey{}\<close>.\<close>

definition FlowKey_zero :: FlowKey where
  "FlowKey_zero = \<lparr>fk_SrcIP = [], fk_DstIP = [], fk_SrcPort = [], fk_DstPort = [], fk_Proto = []\<rparr>"

record PacketInfo =
  Timestamp :: nat
  Length :: "64 word"
  SrcIP :: string
  DstIP :: string
  Protocol :: string
  SrcPort :: string
  DstPort :: string
  TCPFlags :: string
  SequenceNum :: "32 word"
  AckNum :: "32 word"
  AppProtocol :: string
  Payload :: bytes
  IsTLS :: bool
  TLSVersion :: string
  SNI :: string
  CipherSuite :: string
  IsDNS :: bool
  DNSQueryName :: string
  DNSResponseIPs :: "string list"
  Direction :: string
  RemoteIP :: string
  LocalPort :: string
  RemotePort :: string
  ProcessName :: string
  ProcessPID :: "32 word"
  RawData :: bytes

subsection \<open>The captured packet, as the code reads it\<close>

text \<open>
  A \<open>gopacket.Packet\<close> is seen only through the accessors the code calls.  Each field below
  is the value of one accessor: ports and addresses are the strings their \<open>String()\<close>
  methods return (port 53 of UDP is rendered \<open>53(domain)\<close>), a missing layer is \<open>None\<close>.
\<close>

record TCP =
  tcp_SrcPort :: string
  tcp_DstPort :: string
  tcp_Seq :: "32 word"
  tcp_Ack :: "32 word"
  tcp_SYN :: bool
  tcp_ACK :: bool
  tcp_FIN :: bool
  tcp_RST :: bool
  tcp_PSH :: bool
  tcp_URG :: bool
  tcp_Payload :: bytes

record UDP =
  udp_SrcPort :: string
  udp_DstPort :: string
  udp_Payload :: bytes

datatype DNSType = DNSTypeA | DNSTypeAAAA | DNSTypeOther

text \<open>An answer record: its type and \<open>answer.IP\<close> (\<open>None\<close> for \<open>nil\<close>, else \<open>IP.String()\<close>).\<close>

record DNSResourceRecord =
  rr_Type :: DNSType
  rr_IP :: "string option"

record DNS =
  dns_QR :: bool
  dns_Questions :: "string list"
  dns_Answers :: "DNSResourceRecord list"

record Packet =
  Metadata_Timestamp :: nat
  Metadata_Length :: "64 word"
  Data :: bytes
  NetworkLayer :: "(string \<times> string) option"
  TCPLayer :: "TCP option"
  UDPLayer :: "UDP option"
  ApplicationLayer :: "(string \<times> bytes) option"
  DNSLayer :: "DNS option"

section \<open>stream\_reassembler.go\<close>

definition MaxBufferSize :: nat where
  "MaxBufferSize = 65535"

record StreamBuffer =
  Buffer :: bytes
  LastActivity :: nat
  NextSeq :: "32 word"
  Initialized :: bool

record StreamReassembler =
  streams :: "FlowKey \<rightharpoonup> StreamBuffer"

definition NewStreamReassembler :: StreamReassembler where
  "NewStreamReassembler = \<lparr>streams = Map.empty\<rparr>"

text \<open>
  \<open>peekTLSRecord\<close>: the three index reads happen after the length check, so they are in
  range.
\<close>

definition peekTLSRecord :: "bytes \<Rightarrow> bool \<times> bytes" where
  "peekTLSRecord buffer =
     (if length buffer < 5 then (False, [])
      else if buffer ! 0 \<noteq> 0x16 then (True, buffer)
      else
        let recordLen = be16_int (buffer ! 3) (buffer ! 4);
            totalLen = 5 + recordLen
        in if length buffer \<ge> totalLen then (True, take totalLen buffer)
           else (False, []))"

text \<open>
  The flow key \<open>ProcessPacket\<close> builds for a TCP packet (lines 98-112).
\<close>

definition flowKeyOf :: "Packet \<Rightarrow> TCP \<Rightarrow> FlowKey" where
  "flowKeyOf packet tcp =
     (let (srcIP, dstIP) = (case NetworkLayer packet of
                              Some (src, dst) \<Rightarrow> (src, dst)
                            | None \<Rightarrow> ([], []))
      in \<lparr>fk_SrcIP = srcIP, fk_DstIP = dstIP,
          fk_SrcPort = tcp_SrcPort tcp, fk_DstPort = tcp_DstPort tcp,
          fk_Proto = ''TCP''\<rparr>)"

text \<open>
  The buffer entry \<open>ProcessPacket\<close> works on (lines 119-130): the one in the map, or a
  fresh, uninitialised one.
\<close>

definition getOrCreateStream :: "nat \<Rightarrow> StreamReassembler \<Rightarrow> FlowKey \<Rightarrow> StreamBuffer" where
  "getOrCreateStream now sr flowKey =
     (case streams sr flowKey of
        Some stream \<Rightarrow> stream
      | None \<Rightarrow> \<lparr>Buffer = [], LastActivity = now, NextSeq = 0, Initialized = False\<rparr>)"

text \<open>
  The mutation of the entry (lines 132-161).  \<open>uint32(len(tcp.Payload))\<close> is \<open>of_nat\<close>
  into the 32-bit words, the comparisons of sequence numbers are the unsigned ones.
\<close>

definition updateStream :: "nat \<Rightarrow> TCP \<Rightarrow> StreamBuffer \<Rightarrow> StreamBuffer" where
  "updateStream now tcp stream0 =
     (let stream = stream0\<lparr>LastActivity := now\<rparr>;
          payload = tcp_Payload tcp;
          nextSeq = tcp_Seq tcp + of_nat (length payload)
      in if \<not> Initialized stream then
           stream\<lparr>NextSeq := nextSeq, Initialized := True, Buffer := Buffer stream @ payload\<rparr>
         else if tcp_Seq tcp = NextSeq stream then
           (if length (Buffer stream) + length payload \<le> MaxBufferSize then
              stream\<lparr>Buffer := Buffer stream @ payload, NextSeq := nextSeq\<rparr>
            else
              stream\<lparr>Buffer := payload, NextSeq := nextSeq\<rparr>)
         else if tcp_Seq tcp > NextSeq stream then
           stream\<lparr>Buffer := payload, NextSeq := nextSeq\<rparr>
         else stream)"

text \<open>
  \<open>ProcessPacket\<close> returns the payload, the ready flag and the flow key, and the
  reassembler after the call.
\<close>

definition ProcessPacket ::
  "nat \<Rightarrow> Packet \<Rightarrow> StreamReassembler \<Rightarrow> (bytes \<times> bool \<times> FlowKey) \<times> StreamReassembler" where
  "ProcessPacket now packet sr =
     (case TCPLayer packet of
        None \<Rightarrow>
          (case ApplicationLayer packet of
             Some appLayer \<Rightarrow> ((snd appLayer, True, FlowKey_zero), sr)
           | None \<Rightarrow> (([], False, FlowKey_zero), sr))
      | Some tcp \<Rightarrow>
          let flowKey = flowKeyOf packet tcp
          in if length (tcp_Payload tcp) = 0 then (([], False, flowKey), sr)
             else
               let stream = updateStream now tcp (getOrCreateStream now sr flowKey);
                   (ready, completeData) = peekTLSRecord (Buffer stream)
               in if ready then
                    ((completeData, True, flowKey), sr\<lparr>streams := (streams sr)(flowKey := None)\<rparr>)
                  else
                    (([], False, flowKey), sr\<lparr>streams := (streams sr)(flowKey \<mapsto> stream)\<rparr>))"

text \<open>
  Two notions for stating facts about \<open>ProcessPacket\<close>.  \<open>currentBuffer\<close> is the buffer of
  the packet's flow after the mutation, the one \<open>peekTLSRecord\<close> is run on (line 164).
  \<open>tcpSegment packet flowKey seq payload\<close> says that \<open>packet\<close> is a TCP packet of that flow
  with that sequence number and payload.
\<close>

definition currentBuffer :: "nat \<Rightarrow> Packet \<Rightarrow> StreamReassembler \<Rightarrow> bytes" where
  "currentBuffer now packet sr =
     (case TCPLayer packet of
        Some tcp \<Rightarrow> Buffer (updateStream now tcp (getOrCreateStream now sr (flowKeyOf packet tcp)))
      | None \<Rightarrow> [])"

definition tcpSegment :: "Packet \<Rightarrow> FlowKey \<Rightarrow> 32 word \<Rightarrow> bytes \<Rightarrow> bool" where
  "tcpSegment packet flowKey seq payload =
     (case TCPLayer packet of
        Some tcp \<Rightarrow> flowKeyOf packet tcp = flowKey \<and> tcp_Seq tcp = seq \<and> tcp_Payload tcp = payload
      | None \<Rightarrow> False)"

text \<open>
  \<open>buffered sr flowKey acc seq\<close>: the reassembler holds exactly the bytes \<open>acc\<close> for the flow
  and expects sequence number \<open>seq\<close> next (no entry at all when nothing is held).
\<close>

definition buffered :: "StreamReassembler \<Rightarrow> FlowKey \<Rightarrow> bytes \<Rightarrow> 32 word \<Rightarrow> bool" where
  "buffered sr flowKey acc seq =
     (case streams sr flowKey of
        None \<Rightarrow> acc = []
      | Some stream \<Rightarrow> Initialized stream \<and> Buffer stream = acc \<and> NextSeq stream = seq)"

text \<open>An example packet: a TCP segment from 10.0.0.5:50000 to 93.184.216.34:443.\<close>

definition exampleTCP :: "32 word \<Rightarrow> bytes \<Rightarrow> Packet" where
  "exampleTCP seq payload =
     \<lparr>Metadata_Timestamp = 0, Metadata_Length = of_nat (54 + length payload), Data = [],
      NetworkLayer = Some (''10.0.0.5'', ''93.184.216.34''),
      TCPLayer = Some \<lparr>tcp_SrcPort = ''50000'', tcp_DstPort = ''443(https)'',
                       tcp_Seq = seq, tcp_Ack = 0,
                       tcp_SYN = False, tcp_ACK = True, tcp_FIN = False,
                       tcp_RST = False, tcp_PSH = True, tcp_URG = False,
                       tcp_Payload = payload\<rparr>,
      UDPLayer = None,
      ApplicationLayer = Some (''Payload'', payload),
      DNSLayer = None\<rparr>"

definition exampleFlow :: FlowKey where
  "exampleFlow = \<lparr>fk_SrcIP = ''10.0.0.5'', fk_DstIP = ''93.184.216.34'',
                  fk_SrcPort = ''50000'', fk_DstPort = ''443(https)'', fk_Proto = ''TCP''\<rparr>"

text \<open>A flow holding the two bytes 0x16 0x03, next sequence number 1002.\<close>

definition exampleBuffered :: StreamReassembler where
  "exampleBuffered =
     \<lparr>streams = [exampleFlow \<mapsto>
        \<lparr>Buffer = [0x16, 0x03], LastActivity = 1, NextSeq = 1002, Initialized = True\<rparr>]\<rparr>"

section \<open>The protocol parser\<close>

subsection \<open>Go library functions the parser calls\<close>

text \<open>
  A run-time panic (index or slice bounds out of range) is the value \<open>None\<close>.
  \<open>at b i\<close> is the read \<open>b[i]\<close>; \<open>slice b lo hi\<close> is \<open>b[lo:hi]\<close>, which is refused here
  as soon as \<open>hi\<close> exceeds the length (Go allows it up to the capacity, so every slice
  taken without a panic here is taken without a panic there).
\<close>

definition at :: "'a list \<Rightarrow> nat \<Rightarrow> 'a option" where
  "at b i = (if i < length b then Some (b ! i) else None)"

definition slice :: "'a list \<Rightarrow> nat \<Rightarrow> nat \<Rightarrow> 'a list option" where
  "slice b lo hi = (if lo \<le> hi \<and> hi \<le> length b then Some (take (hi - lo) (drop lo b)) else None)"

text \<open>The conversion \<open>string(b)\<close> of a byte slice.\<close>

definition go_string :: "bytes \<Rightarrow> string" where
  "go_string b = map (\<lambda>x. char_of (unat x)) b"

text \<open>\<open>strings.Join\<close>, \<open>strings.HasPrefix\<close> and \<open>strings.Split\<close> on a one-character separator.\<close>

fun Join :: "string list \<Rightarrow> string \<Rightarrow> string" where
  "Join [] sep = []"
| "Join [x] sep = x"
| "Join (x # y # ys) sep = x @ sep @ Join (y # ys) sep"

definition HasPrefix :: "string \<Rightarrow> string \<Rightarrow> bool" where
  "HasPrefix s prefix = (length s \<ge> length prefix \<and> take (length prefix) s = prefix)"

fun Split :: "string \<Rightarrow> char \<Rightarrow> string list" where
  "Split [] sep = [[]]"
| "Split (c # cs) sep =
     (if c = sep then [] # Split cs sep
      else (case Split cs sep of
              part # parts \<Rightarrow> (c # part) # parts
            | [] \<Rightarrow> [[c]]))"

text \<open>
  \<open>fmt.Sprintf("%04x", v)\<close> for a \<open>uint16\<close>: four lower-case hexadecimal digits.
\<close>

definition hexDigit :: "nat \<Rightarrow> char" where
  "hexDigit n = ''0123456789abcdef'' ! (n mod 16)"

definition Sprintf_04x :: "16 word \<Rightarrow> string" where
  "Sprintf_04x v = map (\<lambda>i. hexDigit (unat (drop_bit i v))) [12, 8, 4, 0]"

text \<open>
  \<open>fmt.Sscanf(s, "%d", &n)\<close> with \<open>n\<close> zero before the call, as \<open>isLocalIP\<close> uses it: blanks
  are skipped, a sign is accepted, then the longest run of decimal digits and underscores
  is the token.  The token is converted when it is a non-empty run of digits that fits 64
  bits; anything else is a scan error, which leaves \<open>n\<close> at 0.
\<close>

definition isSpace :: "char \<Rightarrow> bool" where
  "isSpace c = (c \<in> set [CHR '' '', CHR 0x09, CHR 0x0B, CHR 0x0C, CHR 0x0D])"

definition isDigit :: "char \<Rightarrow> bool" where
  "isDigit c = (c \<in> set ''0123456789'')"

definition digitVal :: "char \<Rightarrow> nat" where
  "digitVal c = of_char c - 48"

definition parseDecimal :: "string \<Rightarrow> nat" where
  "parseDecimal tok = foldl (\<lambda>acc c. acc * 10 + digitVal c) 0 tok"

definition Sscanf_d :: "string \<Rightarrow> int" where
  "Sscanf_d s =
     (let s1 = dropWhile isSpace s;
          (neg, s2) = (case s1 of
                         [] \<Rightarrow> (False, [])
                       | c # cs \<Rightarrow> if c = CHR ''+'' then (False, cs)
                                  else if c = CHR ''-'' then (True, cs)
                                  else (False, s1));
          tok = takeWhile (\<lambda>c. isDigit c \<or> c = CHR ''_'') s2;
          v = (if neg then - int (parseDecimal tok) else int (parseDecimal tok))
      in if tok = [] \<or> CHR ''_'' \<in> set tok \<or> v < - (2 ^ 63) \<or> v \<ge> 2 ^ 63 then 0 else v)"

subsection \<open>parseNetworkLayer, parseTransportLayer\<close>

definition parseNetworkLayer :: "Packet \<Rightarrow> PacketInfo \<Rightarrow> PacketInfo" where
  "parseNetworkLayer packet info =
     (case NetworkLayer packet of
        Some (src, dst) \<Rightarrow> info\<lparr>SrcIP := src, DstIP := dst\<rparr>
      | None \<Rightarrow> info)"

definition tcpFlags :: "TCP \<Rightarrow> string list" where
  "tcpFlags tcp =
     (if tcp_SYN tcp then [''SYN''] else []) @
     (if tcp_ACK tcp then [''ACK''] else []) @
     (if tcp_FIN tcp then [''FIN''] else []) @
     (if tcp_RST tcp then [''RST''] else []) @
     (if tcp_PSH tcp then [''PSH''] else []) @
     (if tcp_URG tcp then [''URG''] else [])"

definition parseTransportLayer :: "Packet \<Rightarrow> PacketInfo \<Rightarrow> PacketInfo" where
  "parseTransportLayer packet info =
     (case TCPLayer packet of
        Some tcp \<Rightarrow>
          info\<lparr>Protocol := ''TCP'',
               SrcPort := tcp_SrcPort tcp,
               DstPort := tcp_DstPort tcp,
               SequenceNum := tcp_Seq tcp,
               AckNum := tcp_Ack tcp,
               TCPFlags := Join (tcpFlags tcp) '','',
               Payload := tcp_Payload tcp\<rparr>
      | None \<Rightarrow>
          (case UDPLayer packet of
             Some udp \<Rightarrow>
               info\<lparr>Protocol := ''UDP'',
                    SrcPort := udp_SrcPort udp,
                    DstPort := udp_DstPort udp,
                    Payload := udp_Payload udp\<rparr>
           | None \<Rightarrow> info))"

subsection \<open>TLS: isTLSHandshake, getTLSVersionString, extractSNI, parseSNIExtension\<close>

definition isTLSHandshake :: "bytes \<Rightarrow> bool" where
  "isTLSHandshake payload =
     (if length payload < 6 then False
      else if payload ! 0 \<noteq> 0x16 then False
      else
        let version = be16_uint16 (payload ! 1) (payload ! 2)
        in if version < 0x0301 \<or> version > 0x0304 then False
           else True)"

definition getTLSVersionString :: "16 word \<Rightarrow> string" where
  "getTLSVersionString version =
     (if version = 0x0301 then ''TLS 1.0''
      else if version = 0x0302 then ''TLS 1.1''
      else if version = 0x0303 then ''TLS 1.2''
      else if version = 0x0304 then ''TLS 1.3''
      else ''Unknown (0x'' @ Sprintf_04x version @ '')'')"

text \<open>
  The loop of \<open>parseSNIExtension\<close> (lines 351-370), from position \<open>pos\<close>.  Every read
  goes through \<open>at\<close> and \<open>slice\<close>, so a read out of range would show as \<open>None\<close>.
\<close>

function serverNameLoop :: "bytes \<Rightarrow> nat \<Rightarrow> string option" where
  "serverNameLoop data pos =
     (if pos + 3 \<le> length data then
        do {
          nameType \<leftarrow> at data pos;
          hi \<leftarrow> at data (pos + 1);
          lo \<leftarrow> at data (pos + 2);
          let nameLen = be16_int hi lo;
          let pos' = pos + 3;
          if pos' + nameLen > length data then Some []
          else if nameType = 0x00 then
            do { name \<leftarrow> slice data pos' (pos' + nameLen); Some (go_string name) }
          else serverNameLoop data (pos' + nameLen)
        }
      else Some [])"
  by pat_completeness auto
termination
  by (relation "measure (\<lambda>(data, pos). length data - pos)") auto

declare serverNameLoop.simps [simp del]

definition parseSNIExtension :: "bytes \<Rightarrow> string option" where
  "parseSNIExtension data =
     (if length data < 2 then Some []
      else
        do {
          hi \<leftarrow> at data 0;
          lo \<leftarrow> at data 1;
          let listLen = be16_int hi lo;
          if length data < 2 + listLen then Some []
          else serverNameLoop data 2
        })"

text \<open>The loop over the extensions in \<open>extractSNI\<close> (lines 313-332).\<close>

function extensionLoop :: "bytes \<Rightarrow> nat \<Rightarrow> nat \<Rightarrow> string option" where
  "extensionLoop payload extensionsEnd pos =
     (if pos + 4 \<le> extensionsEnd then
        do {
          t_hi \<leftarrow> at payload pos;
          t_lo \<leftarrow> at payload (pos + 1);
          let extType = be16_uint16 t_hi t_lo;
          l_hi \<leftarrow> at payload (pos + 2);
          l_lo \<leftarrow> at payload (pos + 3);
          let extLen = be16_int l_hi l_lo;
          let pos' = pos + 4;
          if pos' + extLen > length payload then Some []
          else if extType = 0x0000 then
            do { ext \<leftarrow> slice payload pos' (pos' + extLen); parseSNIExtension ext }
          else extensionLoop payload extensionsEnd (pos' + extLen)
        }
      else Some [])"
  by pat_completeness auto
termination
  by (relation "measure (\<lambda>(payload, extensionsEnd, pos). extensionsEnd - pos)") auto

declare extensionLoop.simps [simp del]

definition extractSNI :: "bytes \<Rightarrow> string option" where
  "extractSNI payload =
     (if length payload < 6 then Some []
      else
        do {
          contentType \<leftarrow> at payload 0;
          if contentType \<noteq> 0x16 then Some []
          else
            do {
              r_hi \<leftarrow> at payload 3;
              r_lo \<leftarrow> at payload 4;
              let recordLen = be16_int r_hi r_lo;
              if length payload < 5 + recordLen then Some []
              else if 5 \<ge> length payload then Some []
              else
                do {
                  handshakeType \<leftarrow> at payload 5;
                  if handshakeType \<noteq> 0x01 then Some []
                  else if 6 + 3 > length payload then Some []
                  else if 9 + 2 > length payload then Some []
                  else if 11 + 32 > length payload then Some []
                  else if 43 \<ge> length payload then Some []
                  else
                    do {
                      sid \<leftarrow> at payload 43;
                      let sessionIDLen = unat sid;
                      let pos = 44;
                      if pos + sessionIDLen > length payload then Some []
                      else
                        do {
                          let pos = pos + sessionIDLen;
                          if pos + 2 > length payload then Some []
                          else
                            do {
                              c_hi \<leftarrow> at payload pos;
                              c_lo \<leftarrow> at payload (pos + 1);
                              let cipherSuitesLen = be16_int c_hi c_lo;
                              let pos = pos + 2;
                              if pos + cipherSuitesLen > length payload then Some []
                              else
                                do {
                                  let pos = pos + cipherSuitesLen;
                                  if pos \<ge> length payload then Some []
                                  else
                                    do {
                                      cm \<leftarrow> at payload pos;
                                      let compressionMethodsLen = unat cm;
                                      let pos = pos + 1;
                                      if pos + compressionMethodsLen > length payload then Some []
                                      else
                                        do {
                                          let pos = pos + compressionMethodsLen;
                                          if pos + 2 > length payload then Some []
                                          else
                                            do {
                                              e_hi \<leftarrow> at payload pos;
                                              e_lo \<leftarrow> at payload (pos + 1);
                                              let extensionsLen = be16_int e_hi e_lo;
                                              let pos = pos + 2;
                                              if pos + extensionsLen > length payload then Some []
                                              else extensionLoop payload (pos + extensionsLen) pos
                                            }
                                        }
                                    }
                                }
                            }
                        }
                    }
                }
            }
        })"

text \<open>
  A ClientHello record for the examples: TLS record header, handshake header, client
  version, 32 random bytes, empty session id, one cipher suite, one compression method,
  and an extensions block holding a supported-versions extension followed by a
  server-name extension with one host-name entry.  The six declared lengths (record,
  handshake, extensions block, server-name extension, name list, name) are parameters,
  so that a record can declare more bytes than it holds.
\<close>

definition u16 :: "nat \<Rightarrow> bytes" where
  "u16 n = [of_nat (n div 256), of_nat (n mod 256)]"

definition clientHelloWith :: "nat \<Rightarrow> nat \<Rightarrow> nat \<Rightarrow> nat \<Rightarrow> nat \<Rightarrow> nat \<Rightarrow> string \<Rightarrow> bytes" where
  "clientHelloWith recordLen handshakeLen extensionsLen extLen listLen nameLen name =
     [0x16, 0x03, 0x01] @ u16 recordLen @
     [0x01, 0x00] @ u16 handshakeLen @
     [0x03, 0x03] @
     map of_nat [0 ..< 32] @
     [0x00] @
     [0x00, 0x02, 0x13, 0x01] @
     [0x01, 0x00] @
     u16 extensionsLen @
     [0x00, 0x2b, 0x00, 0x03, 0x02, 0x03, 0x04] @
     [0x00, 0x00] @ u16 extLen @
     u16 listLen @
     [0x00] @ u16 nameLen @ map of_char name"

text \<open>
  \<open>parseTLS\<close>.  The result is \<open>None\<close> only if \<open>extractSNI\<close> panics.
\<close>

definition parseTLS :: "PacketInfo \<Rightarrow> PacketInfo option" where
  "parseTLS info =
     (let payload = Payload info
      in if \<not> isTLSHandshake payload then Some info
         else
           do {
             let info = info\<lparr>IsTLS := True\<rparr>;
             let info = (if length payload \<ge> 3
                         then info\<lparr>TLSVersion := getTLSVersionString (be16_uint16 (payload ! 1) (payload ! 2))\<rparr>
                         else info);
             sni \<leftarrow> extractSNI payload;
             Some (if sni \<noteq> [] then info\<lparr>SNI := sni\<rparr> else info)
           })"

subsection \<open>DNS: parseDNS\<close>

text \<open>The loop over \<open>dns.Answers\<close> (lines 463-476), appending to \<open>ips\<close>.\<close>

fun answerIPs :: "string list \<Rightarrow> DNSResourceRecord list \<Rightarrow> string list" where
  "answerIPs ips [] = ips"
| "answerIPs ips (answer # answers) =
     (case rr_Type answer of
        DNSTypeA \<Rightarrow>
          (case rr_IP answer of
             Some ip \<Rightarrow> answerIPs (ips @ [ip]) answers
           | None \<Rightarrow> answerIPs ips answers)
      | DNSTypeAAAA \<Rightarrow>
          (case rr_IP answer of
             Some ip \<Rightarrow> answerIPs (ips @ [ip]) answers
           | None \<Rightarrow> answerIPs ips answers)
      | DNSTypeOther \<Rightarrow> answerIPs ips answers)"

definition parseDNS :: "Packet \<Rightarrow> PacketInfo \<Rightarrow> PacketInfo" where
  "parseDNS packet info =
     (case DNSLayer packet of
        None \<Rightarrow> info
      | Some dns \<Rightarrow>
          let info = info\<lparr>IsDNS := True\<rparr>
          in if \<not> dns_QR dns then info
             else
               let info = (case dns_Questions dns of
                             [] \<Rightarrow> info
                           | question # _ \<Rightarrow> info\<lparr>DNSQueryName := question\<rparr>)
               in info\<lparr>DNSResponseIPs := answerIPs [] (dns_Answers dns)\<rparr>)"

subsection \<open>parseApplicationLayer, parseApplicationLayerWithPayload\<close>

definition parseApplicationLayer :: "Packet \<Rightarrow> PacketInfo \<Rightarrow> PacketInfo option" where
  "parseApplicationLayer packet info =
     (let info = (case ApplicationLayer packet of
                    Some appLayer \<Rightarrow> info\<lparr>AppProtocol := fst appLayer\<rparr>
                  | None \<Rightarrow> info)
      in if length (Payload info) > 0 then
           do {
             info \<leftarrow> parseTLS info;
             Some (if Protocol info = ''UDP'' \<and>
                      (SrcPort info = ''53(domain)'' \<or> DstPort info = ''53(domain)'')
                   then parseDNS packet info
                   else info)
           }
         else Some info)"

definition parseApplicationLayerWithPayload :: "PacketInfo \<Rightarrow> PacketInfo option" where
  "parseApplicationLayerWithPayload info =
     (if length (Payload info) > 0 then parseTLS info else Some info)"

subsection \<open>Direction: isLocalIP, determineDirection\<close>

definition isLocalIP :: "string \<Rightarrow> bool" where
  "isLocalIP ip =
     (if HasPrefix ip ''10.'' \<or> HasPrefix ip ''192.168.'' \<or>
         HasPrefix ip ''127.'' \<or> HasPrefix ip ''169.254.'' then True
      else if HasPrefix ip ''172.'' then
        (let parts = Split ip CHR ''.''
         in if length parts \<ge> 2 then
              (let secondOctet = Sscanf_d (parts ! 1)
               in if secondOctet \<ge> 16 \<and> secondOctet \<le> 31 then True else False)
            else False)
      else False)"

definition determineDirection :: "PacketInfo \<Rightarrow> PacketInfo" where
  "determineDirection info =
     (let srcIsLocal = isLocalIP (SrcIP info);
          dstIsLocal = isLocalIP (DstIP info)
      in if srcIsLocal \<and> \<not> dstIsLocal then
           info\<lparr>Direction := ''send'', RemoteIP := DstIP info,
                LocalPort := SrcPort info, RemotePort := DstPort info\<rparr>
         else if \<not> srcIsLocal \<and> dstIsLocal then
           info\<lparr>Direction := ''recv'', RemoteIP := SrcIP info,
                LocalPort := DstPort info, RemotePort := SrcPort info\<rparr>
         else if \<not> srcIsLocal \<and> \<not> dstIsLocal then
           info\<lparr>Direction := ''send'', RemoteIP := DstIP info,
                LocalPort := SrcPort info, RemotePort := DstPort info\<rparr>
         else
           info\<lparr>Direction := ''local'', RemoteIP := DstIP info,
                LocalPort := SrcPort info, RemotePort := DstPort info\<rparr>)"

text \<open>
  The addresses the parser is given are the texts of \<open>net.IP.String()\<close>; for an IPv4
  address that is the four octets in decimal, joined by dots.  \<open>isLocalRange\<close> is
  membership of the address in one of the five ranges 10.0.0.0/8, 172.16.0.0/12,
  192.168.0.0/16, 127.0.0.0/8 and 169.254.0.0/16.
\<close>

definition digitChar :: "nat \<Rightarrow> char" where
  "digitChar k = ''0123456789'' ! (k mod 10)"

fun decimal :: "nat \<Rightarrow> string" where
  "decimal n = (if n < 10 then [digitChar n] else decimal (n div 10) @ [digitChar (n mod 10)])"

declare decimal.simps [simp del]

definition ipv4String :: "byte \<Rightarrow> byte \<Rightarrow> byte \<Rightarrow> byte \<Rightarrow> string" where
  "ipv4String a b c d =
     decimal (unat a) @ ''.'' @ decimal (unat b) @ ''.'' @ decimal (unat c) @ ''.'' @ decimal (unat d)"

definition ipv4Value :: "byte \<Rightarrow> byte \<Rightarrow> byte \<Rightarrow> byte \<Rightarrow> nat" where
  "ipv4Value a b c d = ((unat a * 256 + unat b) * 256 + unat c) * 256 + unat d"

definition inCIDR :: "nat \<Rightarrow> nat \<Rightarrow> nat \<Rightarrow> bool" where
  "inCIDR addr net bits = (addr div 2 ^ (32 - bits) = net div 2 ^ (32 - bits))"

definition isLocalRange :: "byte \<Rightarrow> byte \<Rightarrow> byte \<Rightarrow> byte \<Rightarrow> bool" where
  "isLocalRange a b c d =
     (inCIDR (ipv4Value a b c d) (ipv4Value 10 0 0 0) 8 \<or>
      inCIDR (ipv4Value a b c d) (ipv4Value 172 16 0 0) 12 \<or>
      inCIDR (ipv4Value a b c d) (ipv4Value 192 168 0 0) 16 \<or>
      inCIDR (ipv4Value a b c d) (ipv4Value 127 0 0 0) 8 \<or>
      inCIDR (ipv4Value a b c d) (ipv4Value 169 254 0 0) 16)"

subsection \<open>Parse\<close>

record PacketParser =
  reassembler :: StreamReassembler

definition NewPacketParser :: PacketParser where
  "NewPacketParser = \<lparr>reassembler = NewStreamReassembler\<rparr>"

text \<open>The \<open>PacketInfo\<close> that \<open>Parse\<close> starts from: every other field has its zero value.\<close>

definition newPacketInfo :: "Packet \<Rightarrow> PacketInfo" where
  "newPacketInfo packet =
     \<lparr>Timestamp = Metadata_Timestamp packet, Length = Metadata_Length packet,
      SrcIP = [], DstIP = [], Protocol = [], SrcPort = [], DstPort = [], TCPFlags = [],
      SequenceNum = 0, AckNum = 0, AppProtocol = [], Payload = [],
      IsTLS = False, TLSVersion = [], SNI = [], CipherSuite = [],
      IsDNS = False, DNSQueryName = [], DNSResponseIPs = [],
      Direction = [], RemoteIP = [], LocalPort = [], RemotePort = [],
      ProcessName = [], ProcessPID = 0, RawData = Data packet\<rparr>"

text \<open>
  \<open>Parse\<close> returns the \<open>PacketInfo\<close> (\<open>None\<close> for \<open>nil\<close>: the packet is being buffered) and
  the parser after the call; the outer \<open>None\<close> is a panic.
\<close>

definition Parse :: "nat \<Rightarrow> Packet \<Rightarrow> PacketParser \<Rightarrow> (PacketInfo option \<times> PacketParser) option" where
  "Parse now packet p =
     (let ((reassembledPayload, ready, flowKey), sr) = ProcessPacket now packet (reassembler p);
          p = p\<lparr>reassembler := sr\<rparr>
      in if \<not> ready then Some (None, p)
         else
           do {
             let info = newPacketInfo packet;
             let info = parseNetworkLayer packet info;
             let info = parseTransportLayer packet info;
             info \<leftarrow> (if length reassembledPayload > 0
                      then parseApplicationLayerWithPayload (info\<lparr>Payload := reassembledPayload\<rparr>)
                      else parseApplicationLayer packet info);
             let info = determineDirection info;
             Some (Some info, p)
           })"

text \<open>
  An example packet: the DNS response of 8.8.8.8 to 10.0.0.5 that resolves
  \<open>bad.example\<close> to 1.2.3.4, with a CNAME record (no address) and an AAAA record besides.
  The parameter is what the \<open>Payload()\<close> of its application layer returns.
\<close>

definition exampleDNS :: "bytes \<Rightarrow> Packet" where
  "exampleDNS appPayload =
     \<lparr>Metadata_Timestamp = 5, Metadata_Length = 120, Data = [],
      NetworkLayer = Some (''8.8.8.8'', ''10.0.0.5''),
      TCPLayer = None,
      UDPLayer = Some \<lparr>udp_SrcPort = ''53(domain)'', udp_DstPort = ''40000'',
                       udp_Payload = [0xAB, 0xCD, 0x81, 0x80]\<rparr>,
      ApplicationLayer = Some (''DNS'', appPayload),
      DNSLayer = Some \<lparr>dns_QR = True, dns_Questions = [''bad.example''],
                       dns_Answers =
                         [\<lparr>rr_Type = DNSTypeOther, rr_IP = None\<rparr>,
                          \<lparr>rr_Type = DNSTypeA, rr_IP = Some ''1.2.3.4''\<rparr>,
                          \<lparr>rr_Type = DNSTypeAAAA, rr_IP = Some ''2001:db8::1''\<rparr>]\<rparr>\<rparr>"

section \<open>The aggregation store\<close>

record ConnectionRecord =
  cr_Timestamp :: nat
  cr_LocalPort :: string
  cr_RemotePort :: string
  PacketSize :: "64 word"
  cr_Direction :: string
  cr_Protocol :: string
  cr_TCPFlags :: string
  cr_IsTLS :: bool
  cr_SNI :: string
  cr_ProcessName :: string

record RemoteIPStats =
  stats_RemoteIP :: string
  Records :: "ConnectionRecord list"
  TotalPackets :: "64 word"
  TotalBytes :: "64 word"
  SendPackets :: "64 word"
  RecvPackets :: "64 word"
  SendBytes :: "64 word"
  RecvBytes :: "64 word"
  FirstSeen :: nat
  LastSeen :: nat
  RemotePorts :: "string \<rightharpoonup> 64 word"
  LocalPorts :: "string \<rightharpoonup> 64 word"
  SNINames :: "string \<rightharpoonup> 64 word"
  DNSNames :: "string \<rightharpoonup> 64 word"
  Processes :: "string \<rightharpoonup> 64 word"
  TLSCount :: "64 word"
  Protocols :: "string \<rightharpoonup> 64 word"

record DataStore =
  stats :: "string \<rightharpoonup> RemoteIPStats"
  dnsCache :: "string \<rightharpoonup> string list"

definition NewDataStore :: DataStore where
  "NewDataStore = \<lparr>stats = Map.empty, dnsCache = Map.empty\<rparr>"

text \<open>\<open>m[k]++\<close> on a \<open>map[string]int\<close>: a missing key reads as 0.\<close>

definition incr :: "(string \<rightharpoonup> 64 word) \<Rightarrow> string \<Rightarrow> (string \<rightharpoonup> 64 word)" where
  "incr m k = m(k \<mapsto> (case m k of None \<Rightarrow> 0 | Some n \<Rightarrow> n) + 1)"

text \<open>The statistics \<open>Store\<close> creates for a new remote IP, seeded from the DNS cache (lines 70-88).\<close>

definition newRemoteIPStats :: "DataStore \<Rightarrow> PacketInfo \<Rightarrow> RemoteIPStats" where
  "newRemoteIPStats ds info =
     \<lparr>stats_RemoteIP = RemoteIP info, Records = [],
      TotalPackets = 0, TotalBytes = 0, SendPackets = 0, RecvPackets = 0,
      SendBytes = 0, RecvBytes = 0,
      FirstSeen = Timestamp info, LastSeen = 0,
      RemotePorts = Map.empty, LocalPorts = Map.empty, SNINames = Map.empty,
      DNSNames = (case dnsCache ds (RemoteIP info) of
                    Some cachedDomains \<Rightarrow> foldl incr Map.empty cachedDomains
                  | None \<Rightarrow> Map.empty),
      Processes = Map.empty, TLSCount = 0, Protocols = Map.empty\<rparr>"

definition connectionRecord :: "PacketInfo \<Rightarrow> ConnectionRecord" where
  "connectionRecord info =
     \<lparr>cr_Timestamp = Timestamp info, cr_LocalPort = LocalPort info,
      cr_RemotePort = RemotePort info, PacketSize = Length info,
      cr_Direction = Direction info, cr_Protocol = Protocol info,
      cr_TCPFlags = TCPFlags info, cr_IsTLS = IsTLS info, cr_SNI = SNI info,
      cr_ProcessName = ProcessName info\<rparr>"

text \<open>The updates of the statistics of the packet's remote IP (lines 91-146).\<close>

definition recordPacket :: "PacketInfo \<Rightarrow> RemoteIPStats \<Rightarrow> RemoteIPStats" where
  "recordPacket info st =
     (let st = st\<lparr>Records := Records st @ [connectionRecord info]\<rparr>;
          st = st\<lparr>TotalPackets := TotalPackets st + 1\<rparr>;
          st = st\<lparr>TotalBytes := TotalBytes st + Length info\<rparr>;
          st = st\<lparr>LastSeen := Timestamp info\<rparr>;
          st = (if Direction info = ''send'' then
                  st\<lparr>SendPackets := SendPackets st + 1, SendBytes := SendBytes st + Length info\<rparr>
                else if Direction info = ''recv'' then
                  st\<lparr>RecvPackets := RecvPackets st + 1, RecvBytes := RecvBytes st + Length info\<rparr>
                else st);
          st = (if RemotePort info \<noteq> [] then st\<lparr>RemotePorts := incr (RemotePorts st) (RemotePort info)\<rparr> else st);
          st = (if LocalPort info \<noteq> [] then st\<lparr>LocalPorts := incr (LocalPorts st) (LocalPort info)\<rparr> else st);
          st = (if SNI info \<noteq> [] then st\<lparr>SNINames := incr (SNINames st) (SNI info)\<rparr> else st);
          st = (if ProcessName info \<noteq> [] then st\<lparr>Processes := incr (Processes st) (ProcessName info)\<rparr> else st);
          st = (if IsTLS info then st\<lparr>TLSCount := TLSCount st + 1\<rparr> else st);
          st = (if Protocol info \<noteq> [] then st\<lparr>Protocols := incr (Protocols st) (Protocol info)\<rparr> else st)
      in st)"

text \<open>The search of the cached domains for the query name (lines 156-162).\<close>

fun domainExists :: "string list \<Rightarrow> string \<Rightarrow> bool" where
  "domainExists [] name = False"
| "domainExists (cachedDomain # rest) name =
     (if cachedDomain = name then True else domainExists rest name)"

text \<open>One round of the loop over \<open>info.DNSResponseIPs\<close> (lines 150-174).\<close>

definition cacheDNS :: "string \<Rightarrow> DataStore \<Rightarrow> string \<Rightarrow> DataStore" where
  "cacheDNS name ds responseIP =
     (let cached = (case dnsCache ds responseIP of None \<Rightarrow> [] | Some domains \<Rightarrow> domains);
          cached = (if \<not> domainExists cached name then cached @ [name] else cached);
          ds = ds\<lparr>dnsCache := (dnsCache ds)(responseIP \<mapsto> cached)\<rparr>
      in case stats ds responseIP of
           Some ipStats \<Rightarrow>
             ds\<lparr>stats := (stats ds)(responseIP \<mapsto> ipStats\<lparr>DNSNames := incr (DNSNames ipStats) name\<rparr>)\<rparr>
         | None \<Rightarrow> ds)"

definition Store :: "PacketInfo \<Rightarrow> DataStore \<Rightarrow> DataStore" where
  "Store info ds =
     (if RemoteIP info = [] then ds
      else
        let st = (case stats ds (RemoteIP info) of
                    Some st \<Rightarrow> st
                  | None \<Rightarrow> newRemoteIPStats ds info);
            ds = ds\<lparr>stats := (stats ds)(RemoteIP info \<mapsto> recordPacket info st)\<rparr>
        in if IsDNS info \<and> DNSQueryName info \<noteq> [] \<and> length (DNSResponseIPs info) > 0
           then foldl (cacheDNS (DNSQueryName info)) ds (DNSResponseIPs info)
           else ds)"

text \<open>The store after a sequence of \<open>Store\<close> calls, first packet first.\<close>

definition StoreAll :: "PacketInfo list \<Rightarrow> DataStore \<Rightarrow> DataStore" where
  "StoreAll infos ds = foldl (\<lambda>ds info. Store info ds) ds infos"

definition GetTotalPackets :: "DataStore \<Rightarrow> 64 word" where
  "GetTotalPackets ds = (\<Sum>ip \<in> dom (stats ds). TotalPackets (the (stats ds ip)))"

definition GetTotalBytes :: "DataStore \<Rightarrow> 64 word" where
  "GetTotalBytes ds = (\<Sum>ip \<in> dom (stats ds). TotalBytes (the (stats ds ip)))"


section \<open>Facts about the reassembler\<close>

lemma be16_int_eq: "be16_int hi lo = unat hi * 256 + unat lo"
proof -
  have "push_bit 8 (unat hi) + unat lo = push_bit 8 (unat hi) OR unat lo"
  proof (rule disjunctive_add)
    fix n
    show "\<not> bit (push_bit 8 (unat hi)) n \<or> \<not> bit (unat lo) n"
      by (auto simp add: bit_push_bit_iff bit_unsigned_iff dest: bit_imp_le_length)
  qed
  then show ?thesis by (simp add: be16_int_def push_bit_eq_mult)
qed

lemma peekTLSRecord_short: "length buffer < 5 \<Longrightarrow> peekTLSRecord buffer = (False, [])"
  by (simp add: peekTLSRecord_def)

lemma peekTLSRecord_other:
  "5 \<le> length buffer \<Longrightarrow> buffer ! 0 \<noteq> 0x16 \<Longrightarrow> peekTLSRecord buffer = (True, buffer)"
  by (simp add: peekTLSRecord_def)

lemma peekTLSRecord_tls:
  "5 \<le> length buffer \<Longrightarrow> buffer ! 0 = 0x16 \<Longrightarrow>
   peekTLSRecord buffer =
     (if 5 + (unat (buffer ! 3) * 256 + unat (buffer ! 4)) \<le> length buffer
      then (True, take (5 + (unat (buffer ! 3) * 256 + unat (buffer ! 4))) buffer)
      else (False, []))"
  by (simp add: peekTLSRecord_def Let_def be16_int_eq)

lemma ProcessPacket_tcp:
  assumes "TCPLayer packet = Some tcp" and "tcp_Payload tcp \<noteq> []"
  shows "ProcessPacket now packet sr =
     (let flowKey = flowKeyOf packet tcp;
          stream = updateStream now tcp (getOrCreateStream now sr flowKey)
      in if fst (peekTLSRecord (Buffer stream))
         then ((snd (peekTLSRecord (Buffer stream)), True, flowKey),
               sr\<lparr>streams := (streams sr)(flowKey := None)\<rparr>)
         else (([], False, flowKey), sr\<lparr>streams := (streams sr)(flowKey \<mapsto> stream)\<rparr>))"
  using assms by (simp add: ProcessPacket_def Let_def split: prod.splits)

lemma getOrCreateStream_fresh:
  "streams sr flowKey = None \<Longrightarrow>
   getOrCreateStream now sr flowKey = \<lparr>Buffer = [], LastActivity = now, NextSeq = 0, Initialized = False\<rparr>"
  by (simp add: getOrCreateStream_def)

lemma getOrCreateStream_existing:
  "streams sr flowKey = Some stream \<Longrightarrow> getOrCreateStream now sr flowKey = stream"
  by (simp add: getOrCreateStream_def)

lemma updateStream_fresh:
  "\<not> Initialized stream \<Longrightarrow>
   updateStream now tcp stream =
     \<lparr>Buffer = Buffer stream @ tcp_Payload tcp, LastActivity = now,
      NextSeq = tcp_Seq tcp + of_nat (length (tcp_Payload tcp)), Initialized = True\<rparr>"
  by (simp add: updateStream_def Let_def)


lemma updateStream_initialized:
  assumes "Initialized stream"
  shows "updateStream now tcp stream =
     (if tcp_Seq tcp = NextSeq stream then
        (if length (Buffer stream) + length (tcp_Payload tcp) \<le> 65535
         then stream\<lparr>LastActivity := now, Buffer := Buffer stream @ tcp_Payload tcp,
                     NextSeq := tcp_Seq tcp + of_nat (length (tcp_Payload tcp))\<rparr>
         else stream\<lparr>LastActivity := now, Buffer := tcp_Payload tcp,
                     NextSeq := tcp_Seq tcp + of_nat (length (tcp_Payload tcp))\<rparr>)
      else if tcp_Seq tcp > NextSeq stream then
        stream\<lparr>LastActivity := now, Buffer := tcp_Payload tcp,
               NextSeq := tcp_Seq tcp + of_nat (length (tcp_Payload tcp))\<rparr>
      else stream\<lparr>LastActivity := now\<rparr>)"
  using assms by (simp add: updateStream_def Let_def MaxBufferSize_def)

lemma peek_prefix_incomplete:
  assumes "xs @ ys = [0x16, 3, 3, 0, 5, b1, b2, b3, b4, b5]" and "ys \<noteq> []"
  shows "peekTLSRecord xs = (False, [])"
proof (cases "length xs < 5")
  case True
  then show ?thesis by (rule peekTLSRecord_short)
next
  case False
  have len: "length xs + length ys = 10"
    using arg_cong [OF assms(1), of length] by simp
  with assms(2) have lt: "length xs < 10" by (cases ys) auto
  have nth: "xs ! i = [0x16, 3, 3, 0, 5, b1, b2, b3, b4, b5] ! i" if "i < length xs" for i
    using that assms(1) by (metis nth_append)
  from False have l: "0 < length xs" "3 < length xs" "4 < length xs" by auto
  have "xs ! 0 = 0x16" "xs ! 3 = 0" "xs ! 4 = 5"
    using nth [OF l(1)] nth [OF l(2)] nth [OF l(3)] by simp_all
  with False lt show ?thesis
    by (simp add: peekTLSRecord_tls)
qed

lemma peek_whole_record:
  "peekTLSRecord [0x16, 3, 3, 0, 5, b1, b2, b3, b4, b5] = (True, [0x16, 3, 3, 0, 5, b1, b2, b3, b4, b5])"
  by (simp add: peekTLSRecord_tls)


lemma currentBuffer_tcp:
  "TCPLayer packet = Some tcp \<Longrightarrow>
   currentBuffer now packet sr =
     Buffer (updateStream now tcp (getOrCreateStream now sr (flowKeyOf packet tcp)))"
  by (simp add: currentBuffer_def)

lemma currentBuffer_fresh:
  "TCPLayer packet = Some tcp \<Longrightarrow> streams sr (flowKeyOf packet tcp) = None \<Longrightarrow>
   currentBuffer now packet sr = tcp_Payload tcp"
  by (simp add: currentBuffer_def getOrCreateStream_fresh updateStream_fresh)

lemma ProcessPacket_peek:
  assumes "TCPLayer packet = Some tcp" and "tcp_Payload tcp \<noteq> []"
  shows "ProcessPacket now packet sr =
     (if fst (peekTLSRecord (currentBuffer now packet sr))
      then ((snd (peekTLSRecord (currentBuffer now packet sr)), True, flowKeyOf packet tcp),
            sr\<lparr>streams := (streams sr)(flowKeyOf packet tcp := None)\<rparr>)
      else (([], False, flowKeyOf packet tcp),
            sr\<lparr>streams := (streams sr)(flowKeyOf packet tcp \<mapsto>
                  updateStream now tcp (getOrCreateStream now sr (flowKeyOf packet tcp)))\<rparr>))"
  using assms by (simp add: ProcessPacket_tcp currentBuffer_tcp Let_def)

lemma tls_record_complete_iff:
  assumes tcp: "TCPLayer packet = Some tcp" "tcp_Payload tcp \<noteq> []"
    and buf: "buf = currentBuffer now packet sr" "buf \<noteq> []" "buf ! 0 = 0x16"
    and L: "L = unat (buf ! 3) * 256 + unat (buf ! 4)"
    and res: "ProcessPacket now packet sr = ((data, ready, flowKey), sr')"
  shows "flowKey = flowKeyOf packet tcp"
    and "ready \<longleftrightarrow> 5 \<le> length buf \<and> 5 + L \<le> length buf"
    and "ready \<Longrightarrow> data = take (5 + L) buf \<and> length data = 5 + L \<and> streams sr' flowKey = None"
    and "\<not> ready \<Longrightarrow> data = [] \<and> (\<exists>stream. streams sr' flowKey = Some stream \<and> Buffer stream = buf)"
proof -
  have peek: "peekTLSRecord buf =
      (if 5 \<le> length buf \<and> 5 + L \<le> length buf then (True, take (5 + L) buf) else (False, []))"
  proof (cases "5 \<le> length buf")
    case True
    then show ?thesis using buf(3) L by (simp add: peekTLSRecord_tls)
  next
    case False
    then show ?thesis by (simp add: peekTLSRecord_short)
  qed
  note pp = ProcessPacket_peek [OF tcp, of now sr, folded buf(1), unfolded peek]
  show "flowKey = flowKeyOf packet tcp"
    using pp res by (auto split: if_splits)
  show "ready \<longleftrightarrow> 5 \<le> length buf \<and> 5 + L \<le> length buf"
    using pp res by (auto split: if_splits)
  show "data = take (5 + L) buf \<and> length data = 5 + L \<and> streams sr' flowKey = None" if ready
    using pp res that by (auto split: if_splits)
  show "data = [] \<and> (\<exists>stream. streams sr' flowKey = Some stream \<and> Buffer stream = buf)" if "\<not> ready"
    using pp res that buf(1) tcp(1) by (auto simp: currentBuffer_tcp split: if_splits)
qed

lemma next_packet_starts_new_buffer:
  assumes "streams sr flowKey = None"
    and "TCPLayer packet = Some tcp" and "flowKeyOf packet tcp = flowKey"
  shows "currentBuffer now packet sr = tcp_Payload tcp"
  using assms by (simp add: currentBuffer_fresh)

lemma ProcessPacket_empty_segment:
  assumes "tcpSegment packet flowKey seq []"
  shows "ProcessPacket now packet sr = (([], False, flowKey), sr)"
  using assms by (auto simp: tcpSegment_def ProcessPacket_def Let_def split: option.splits)

lemma in_order_buffer:
  assumes seg: "tcpSegment packet flowKey seq seg"
    and st: "buffered sr flowKey acc seq"
    and cap: "length acc + length seg \<le> 65535"
  shows "currentBuffer now packet sr = acc @ seg"
proof -
  from seg obtain tcp where tcp: "TCPLayer packet = Some tcp" "flowKeyOf packet tcp = flowKey"
      "tcp_Seq tcp = seq" "tcp_Payload tcp = seg"
    by (auto simp: tcpSegment_def split: option.splits)
  show ?thesis
  proof (cases "streams sr flowKey")
    case None
    with st tcp show ?thesis by (simp add: buffered_def currentBuffer_fresh)
  next
    case (Some stream)
    with st have "Initialized stream" "Buffer stream = acc" "NextSeq stream = seq"
      by (simp_all add: buffered_def)
    with Some tcp cap show ?thesis
      by (simp add: currentBuffer_tcp getOrCreateStream_existing updateStream_initialized)
  qed
qed

lemma in_order_step:
  assumes seg: "tcpSegment packet flowKey seq seg"
    and st: "buffered sr flowKey acc seq"
    and cap: "length acc + length seg \<le> 65535"
    and peek: "peekTLSRecord (acc @ seg) = (False, [])"
    and res: "ProcessPacket now packet sr = (r, sr')"
  shows "r = ([], False, flowKey) \<and> buffered sr' flowKey (acc @ seg) (seq + of_nat (length seg))"
proof (cases "seg = []")
  case True
  with seg res have "r = ([], False, flowKey)" "sr' = sr"
    by (simp_all add: ProcessPacket_empty_segment)
  with st True show ?thesis by simp
next
  case False
  from seg obtain tcp where tcp: "TCPLayer packet = Some tcp" "flowKeyOf packet tcp = flowKey"
      "tcp_Seq tcp = seq" "tcp_Payload tcp = seg"
    by (auto simp: tcpSegment_def split: option.splits)
  have buf: "currentBuffer now packet sr = acc @ seg"
    by (rule in_order_buffer [OF seg st cap])
  from tcp False have ne: "tcp_Payload tcp \<noteq> []" by simp
  have r: "r = ([], False, flowKey)"
    and sr': "sr' = sr\<lparr>streams := (streams sr)(flowKey \<mapsto>
                  updateStream now tcp (getOrCreateStream now sr flowKey))\<rparr>"
    using ProcessPacket_peek [OF tcp(1) ne, of now sr] res buf peek tcp(2) by simp_all
  have "Initialized (updateStream now tcp (getOrCreateStream now sr flowKey))
      \<and> NextSeq (updateStream now tcp (getOrCreateStream now sr flowKey)) = seq + of_nat (length seg)"
  proof (cases "streams sr flowKey")
    case None
    with tcp show ?thesis by (simp add: getOrCreateStream_fresh updateStream_fresh)
  next
    case (Some stream)
    with st have "Initialized stream" "Buffer stream = acc" "NextSeq stream = seq"
      by (simp_all add: buffered_def)
    with Some tcp cap show ?thesis
      by (simp add: getOrCreateStream_existing updateStream_initialized)
  qed
  moreover have "Buffer (updateStream now tcp (getOrCreateStream now sr flowKey)) = acc @ seg"
    using buf tcp by (simp add: currentBuffer_tcp)
  ultimately show ?thesis using r sr' by (simp add: buffered_def)
qed

lemma in_order_complete:
  assumes seg: "tcpSegment packet flowKey seq seg" and ne: "seg \<noteq> []"
    and st: "buffered sr flowKey acc seq"
    and cap: "length acc + length seg \<le> 65535"
    and peek: "peekTLSRecord (acc @ seg) = (True, data)"
    and res: "ProcessPacket now packet sr = (r, sr')"
  shows "r = (data, True, flowKey) \<and> streams sr' flowKey = None"
proof -
  from seg obtain tcp where tcp: "TCPLayer packet = Some tcp" "flowKeyOf packet tcp = flowKey"
      "tcp_Seq tcp = seq" "tcp_Payload tcp = seg"
    by (auto simp: tcpSegment_def split: option.splits)
  have buf: "currentBuffer now packet sr = acc @ seg"
    by (rule in_order_buffer [OF seg st cap])
  from tcp ne have ne': "tcp_Payload tcp \<noteq> []" by simp
  show ?thesis
    using ProcessPacket_peek [OF tcp(1) ne', of now sr] res buf peek tcp(2) by auto
qed

lemma reassembly_round_trip:
  assumes fresh: "streams sr0 flowKey = None"
    and s1: "tcpSegment pk1 flowKey seq seg1"
    and s2: "tcpSegment pk2 flowKey (seq + of_nat (length seg1)) seg2"
    and s3: "tcpSegment pk3 flowKey (seq + of_nat (length seg1) + of_nat (length seg2)) seg3"
    and ne: "seg3 \<noteq> []"
    and cat: "seg1 @ seg2 @ seg3 = [0x16, 3, 3, 0, 5, b1, b2, b3, b4, b5]"
    and r1: "ProcessPacket n1 pk1 sr0 = (r1, sr1)"
    and r2: "ProcessPacket n2 pk2 sr1 = (r2, sr2)"
    and r3: "ProcessPacket n3 pk3 sr2 = (r3, sr3)"
  shows "r1 = ([], False, flowKey) \<and> r2 = ([], False, flowKey) \<and>
         r3 = ([0x16, 3, 3, 0, 5, b1, b2, b3, b4, b5], True, flowKey) \<and>
         streams sr3 flowKey = None"
proof -
  have len: "length seg1 + length seg2 + length seg3 = 10"
    using arg_cong [OF cat, of length] by simp
  have b0: "buffered sr0 flowKey [] seq" using fresh by (simp add: buffered_def)
  have p1: "peekTLSRecord ([] @ seg1) = (False, [])"
    using peek_prefix_incomplete [of seg1 "seg2 @ seg3"] cat ne by simp
  have p2: "peekTLSRecord (([] @ seg1) @ seg2) = (False, [])"
    using peek_prefix_incomplete [of "seg1 @ seg2" seg3] cat ne by simp
  have p3: "peekTLSRecord ((([] @ seg1) @ seg2) @ seg3) = (True, [0x16, 3, 3, 0, 5, b1, b2, b3, b4, b5])"
    using cat peek_whole_record [of b1 b2 b3 b4 b5] by simp
  have st1: "r1 = ([], False, flowKey) \<and> buffered sr1 flowKey ([] @ seg1) (seq + of_nat (length seg1))"
    by (rule in_order_step [OF s1 b0 _ p1 r1]) (use len in simp)
  have st2: "r2 = ([], False, flowKey) \<and>
      buffered sr2 flowKey (([] @ seg1) @ seg2) (seq + of_nat (length seg1) + of_nat (length seg2))"
    by (rule in_order_step [OF s2 conjunct2 [OF st1] _ p2 r2]) (use len in simp)
  have st3: "r3 = ([0x16, 3, 3, 0, 5, b1, b2, b3, b4, b5], True, flowKey) \<and> streams sr3 flowKey = None"
    by (rule in_order_complete [OF s3 ne conjunct2 [OF st2] _ p3 r3]) (use len in simp)
  from st1 st2 st3 show ?thesis by simp
qed

text \<open>
  Claim C1.  For a TCP packet with payload whose flow buffer, after the mutation, starts
  with byte 0x16, \<open>ProcessPacket\<close> reports ready exactly when the buffer holds the 5
  header bytes and at least \<open>5 + L\<close> bytes, \<open>L\<close> being the big-endian 16-bit value of
  bytes 3-4.  On completion it returns exactly the first \<open>5 + L\<close> bytes and removes the
  flow's entry, so that the buffer of any later payload packet of the flow is that
  packet's payload alone; otherwise the bytes stay buffered.  And for three segments in
  sequence-number order, on a flow with no buffer, whose concatenation is
  \<open>[0x16, 0x03, 0x03, 0x00, 0x05, b1, b2, b3, b4, b5]\<close>, the first two calls are not ready
  and the third returns ready with exactly those 10 bytes and leaves no buffer.
\<close>

theorem ProcessPacket_completes_tls_record:
  "(\<forall>now packet tcp sr buf L data ready flowKey sr'.
      TCPLayer packet = Some tcp \<and> tcp_Payload tcp \<noteq> [] \<and>
      buf = currentBuffer now packet sr \<and> buf \<noteq> [] \<and> buf ! 0 = 0x16 \<and>
      L = unat (buf ! 3) * 256 + unat (buf ! 4) \<and>
      ProcessPacket now packet sr = ((data, ready, flowKey), sr') \<longrightarrow>
        flowKey = flowKeyOf packet tcp \<and>
        (ready \<longleftrightarrow> 5 \<le> length buf \<and> 5 + L \<le> length buf) \<and>
        (ready \<longrightarrow>
           data = take (5 + L) buf \<and> length data = 5 + L \<and> streams sr' flowKey = None \<and>
           (\<forall>now' packet' seq' payload'.
              tcpSegment packet' flowKey seq' payload' \<longrightarrow>
              currentBuffer now' packet' sr' = payload')) \<and>
        (\<not> ready \<longrightarrow>
           data = [] \<and> (\<exists>stream. streams sr' flowKey = Some stream \<and> Buffer stream = buf)))
   \<and>
   (\<forall>sr0 flowKey seq seg1 seg2 seg3 pk1 pk2 pk3 b1 b2 b3 b4 b5 n1 n2 n3 r1 sr1 r2 sr2 r3 sr3.
      streams sr0 flowKey = None \<and>
      tcpSegment pk1 flowKey seq seg1 \<and>
      tcpSegment pk2 flowKey (seq + of_nat (length seg1)) seg2 \<and>
      tcpSegment pk3 flowKey (seq + of_nat (length seg1) + of_nat (length seg2)) seg3 \<and>
      seg3 \<noteq> [] \<and>
      seg1 @ seg2 @ seg3 = [0x16, 0x03, 0x03, 0x00, 0x05, b1, b2, b3, b4, b5] \<and>
      ProcessPacket n1 pk1 sr0 = (r1, sr1) \<and>
      ProcessPacket n2 pk2 sr1 = (r2, sr2) \<and>
      ProcessPacket n3 pk3 sr2 = (r3, sr3) \<longrightarrow>
        r1 = ([], False, flowKey) \<and> r2 = ([], False, flowKey) \<and>
        r3 = ([0x16, 0x03, 0x03, 0x00, 0x05, b1, b2, b3, b4, b5], True, flowKey) \<and>
        streams sr3 flowKey = None)"
proof (intro conjI allI impI)
  fix now packet tcp sr buf L data ready flowKey sr'
  assume h: "TCPLayer packet = Some tcp \<and> tcp_Payload tcp \<noteq> [] \<and>
      buf = currentBuffer now packet sr \<and> buf \<noteq> [] \<and> buf ! 0 = 0x16 \<and>
      L = unat (buf ! 3) * 256 + unat (buf ! 4) \<and>
      ProcessPacket now packet sr = ((data, ready, flowKey), sr')"
  then have tcp: "TCPLayer packet = Some tcp" "tcp_Payload tcp \<noteq> []"
    and buf: "buf = currentBuffer now packet sr" "buf \<noteq> []" "buf ! 0 = 0x16"
    and L: "L = unat (buf ! 3) * 256 + unat (buf ! 4)"
    and res: "ProcessPacket now packet sr = ((data, ready, flowKey), sr')"
    by blast+
  note facts = tls_record_complete_iff [OF tcp buf L res]
  show "flowKey = flowKeyOf packet tcp" by (rule facts(1))
  show "ready \<longleftrightarrow> 5 \<le> length buf \<and> 5 + L \<le> length buf" by (rule facts(2))
  show "\<not> ready \<Longrightarrow> data = []" using facts(4) by simp
  show "\<not> ready \<Longrightarrow> \<exists>stream. streams sr' flowKey = Some stream \<and> Buffer stream = buf"
    using facts(4) by simp
  assume ready
  from facts(3) [OF this]
  have d: "data = take (5 + L) buf" and l: "length data = 5 + L"
    and gone: "streams sr' flowKey = None"
    by blast+
  show "data = take (5 + L) buf" by (rule d)
  show "length data = 5 + L" by (rule l)
  show "streams sr' flowKey = None" by (rule gone)
  fix now' packet' seq' payload'
  assume "tcpSegment packet' flowKey seq' payload'"
  then obtain tcp' where "TCPLayer packet' = Some tcp'" "flowKeyOf packet' tcp' = flowKey"
      "tcp_Payload tcp' = payload'"
    by (auto simp: tcpSegment_def split: option.splits)
  with gone show "currentBuffer now' packet' sr' = payload'"
    by (simp add: currentBuffer_fresh)
next
  fix sr0 flowKey seq seg1 seg2 seg3 pk1 pk2 pk3 b1 b2 b3 b4 b5 n1 n2 n3 r1 sr1 r2 sr2 r3 sr3
  assume h: "streams sr0 flowKey = None \<and>
      tcpSegment pk1 flowKey seq seg1 \<and>
      tcpSegment pk2 flowKey (seq + of_nat (length seg1)) seg2 \<and>
      tcpSegment pk3 flowKey (seq + of_nat (length seg1) + of_nat (length seg2)) seg3 \<and>
      seg3 \<noteq> [] \<and>
      seg1 @ seg2 @ seg3 = [0x16, 0x03, 0x03, 0x00, 0x05, b1, b2, b3, b4, b5] \<and>
      ProcessPacket n1 pk1 sr0 = (r1, sr1) \<and>
      ProcessPacket n2 pk2 sr1 = (r2, sr2) \<and>
      ProcessPacket n3 pk3 sr2 = (r3, sr3)"
  then have rt: "r1 = ([], False, flowKey) \<and> r2 = ([], False, flowKey) \<and>
        r3 = ([0x16, 0x03, 0x03, 0x00, 0x05, b1, b2, b3, b4, b5], True, flowKey) \<and>
        streams sr3 flowKey = None"
    by (intro reassembly_round_trip [of sr0 flowKey pk1 seq seg1 pk2 seg2 pk3 seg3
          b1 b2 b3 b4 b5 n1 r1 sr1 n2 r2 sr2 n3 r3 sr3]) simp_all
  from rt show "r1 = ([], False, flowKey)" "r2 = ([], False, flowKey)"
    "r3 = ([0x16, 0x03, 0x03, 0x00, 0x05, b1, b2, b3, b4, b5], True, flowKey)"
    "streams sr3 flowKey = None" by simp_all
qed


lemma tcpSegment_example: "tcpSegment (exampleTCP seq payload) exampleFlow seq payload"
  by (simp add: tcpSegment_def exampleTCP_def exampleFlow_def flowKeyOf_def)

lemma TCPLayer_example:
  "TCPLayer (exampleTCP seq payload) =
     Some \<lparr>tcp_SrcPort = ''50000'', tcp_DstPort = ''443(https)'',
           tcp_Seq = seq, tcp_Ack = 0,
           tcp_SYN = False, tcp_ACK = True, tcp_FIN = False,
           tcp_RST = False, tcp_PSH = True, tcp_URG = False,
           tcp_Payload = payload\<rparr>"
  by (simp add: exampleTCP_def)

theorem ProcessPacket_completes_tls_record_witness:
  "streams NewStreamReassembler exampleFlow = None \<and>
   tcpSegment (exampleTCP 1000 [0x16, 0x03]) exampleFlow 1000 [0x16, 0x03] \<and>
   tcpSegment (exampleTCP 1002 [0x03, 0x00, 0x05, 0xA1]) exampleFlow 1002 [0x03, 0x00, 0x05, 0xA1] \<and>
   tcpSegment (exampleTCP 1006 [0xA2, 0xA3, 0xA4, 0xA5]) exampleFlow 1006 [0xA2, 0xA3, 0xA4, 0xA5] \<and>
   fst (ProcessPacket 1 (exampleTCP 1000 [0x16, 0x03]) NewStreamReassembler)
     = ([], False, exampleFlow) \<and>
   fst (ProcessPacket 2 (exampleTCP 1002 [0x03, 0x00, 0x05, 0xA1])
         (snd (ProcessPacket 1 (exampleTCP 1000 [0x16, 0x03]) NewStreamReassembler)))
     = ([], False, exampleFlow) \<and>
   fst (ProcessPacket 3 (exampleTCP 1006 [0xA2, 0xA3, 0xA4, 0xA5])
         (snd (ProcessPacket 2 (exampleTCP 1002 [0x03, 0x00, 0x05, 0xA1])
           (snd (ProcessPacket 1 (exampleTCP 1000 [0x16, 0x03]) NewStreamReassembler)))))
     = ([0x16, 0x03, 0x03, 0x00, 0x05, 0xA1, 0xA2, 0xA3, 0xA4, 0xA5], True, exampleFlow)"
proof -
  let ?p1 = "exampleTCP 1000 [0x16, 0x03]"
  let ?p2 = "exampleTCP 1002 [0x03, 0x00, 0x05, 0xA1]"
  let ?p3 = "exampleTCP 1006 [0xA2, 0xA3, 0xA4, 0xA5]"
  let ?s1 = "snd (ProcessPacket 1 ?p1 NewStreamReassembler)"
  let ?s2 = "snd (ProcessPacket 2 ?p2 ?s1)"
  have fresh: "streams NewStreamReassembler exampleFlow = None"
    by (simp add: NewStreamReassembler_def)
  have s1: "tcpSegment ?p1 exampleFlow 1000 [0x16, 0x03]" by (rule tcpSegment_example)
  have s2: "tcpSegment ?p2 exampleFlow (1000 + of_nat (length [0x16 :: byte, 0x03])) [0x03, 0x00, 0x05, 0xA1]"
    using tcpSegment_example [of 1002] by simp
  have s3: "tcpSegment ?p3 exampleFlow
      (1000 + of_nat (length [0x16 :: byte, 0x03]) + of_nat (length [0x03 :: byte, 0x00, 0x05, 0xA1]))
      [0xA2, 0xA3, 0xA4, 0xA5]"
    using tcpSegment_example [of 1006] by simp
  from ProcessPacket_completes_tls_record [THEN conjunct2, rule_format,
      of NewStreamReassembler exampleFlow ?p1 1000 "[0x16, 0x03]" ?p2 "[0x03, 0x00, 0x05, 0xA1]"
         ?p3 "[0xA2, 0xA3, 0xA4, 0xA5]" "0xA1" "0xA2" "0xA3" "0xA4" "0xA5"
         1 "fst (ProcessPacket 1 ?p1 NewStreamReassembler)" ?s1
         2 "fst (ProcessPacket 2 ?p2 ?s1)" ?s2
         3 "fst (ProcessPacket 3 ?p3 ?s2)" "snd (ProcessPacket 3 ?p3 ?s2)"]
    fresh s1 s2 s3
  show ?thesis using tcpSegment_example by simp
qed

text \<open>
  Claim C2, as stated, fails: a first segment of four bytes \<open>GET\<close> and a blank does not
  start with 0x16, yet \<open>ProcessPacket\<close> reports it not ready, because \<open>peekTLSRecord\<close>
  refuses every buffer shorter than 5 bytes before it looks at the first byte.
\<close>

theorem non_tls_short_buffer_counterexample:
  "currentBuffer 1 (exampleTCP 1000 [0x47, 0x45, 0x54, 0x20]) NewStreamReassembler
     = [0x47, 0x45, 0x54, 0x20] \<and>
   [0x47, 0x45, 0x54, 0x20 :: byte] ! 0 \<noteq> 0x16 \<and>
   fst (ProcessPacket 1 (exampleTCP 1000 [0x47, 0x45, 0x54, 0x20]) NewStreamReassembler)
     = ([], False, exampleFlow)"
  by code_simp

text \<open>
  Claim C2, amended.  For a TCP packet with payload: when the flow's buffer after the
  mutation holds at least 5 bytes and its first byte is not 0x16, \<open>ProcessPacket\<close>
  returns ready with the whole buffer on that same call and removes the entry; a buffer
  shorter than 5 bytes is never complete, whatever its first byte, and stays buffered.
\<close>

theorem ProcessPacket_non_tls_buffer:
  assumes "TCPLayer packet = Some tcp" and "tcp_Payload tcp \<noteq> []"
    and "buf = currentBuffer now packet sr"
    and "ProcessPacket now packet sr = ((data, ready, flowKey), sr')"
  shows "(5 \<le> length buf \<and> buf ! 0 \<noteq> 0x16 \<longrightarrow>
            ready \<and> data = buf \<and> streams sr' flowKey = None) \<and>
         (length buf < 5 \<longrightarrow>
            \<not> ready \<and> data = [] \<and>
            (\<exists>stream. streams sr' flowKey = Some stream \<and> Buffer stream = buf))"
proof (intro conjI impI)
  note pp = ProcessPacket_peek [OF assms(1,2), of now sr, folded assms(3)]
  {
    assume "5 \<le> length buf \<and> buf ! 0 \<noteq> 0x16"
    then have "peekTLSRecord buf = (True, buf)" by (simp add: peekTLSRecord_other)
    with pp assms(4) show "ready" "data = buf" "streams sr' flowKey = None" by auto
  }
  {
    assume "length buf < 5"
    then have "peekTLSRecord buf = (False, [])" by (rule peekTLSRecord_short)
    with pp assms(4) show "\<not> ready" "data = []"
      "\<exists>stream. streams sr' flowKey = Some stream \<and> Buffer stream = buf"
      using assms(1,3) by (auto simp: currentBuffer_tcp)
  }
qed

theorem ProcessPacket_non_tls_buffer_witness:
  "TCPLayer (exampleTCP 1000 [0x47, 0x45, 0x54, 0x20, 0x2F]) \<noteq> None \<and>
   currentBuffer 1 (exampleTCP 1000 [0x47, 0x45, 0x54, 0x20, 0x2F]) NewStreamReassembler
     = [0x47, 0x45, 0x54, 0x20, 0x2F] \<and>
   fst (ProcessPacket 1 (exampleTCP 1000 [0x47, 0x45, 0x54, 0x20, 0x2F]) NewStreamReassembler)
     = ([0x47, 0x45, 0x54, 0x20, 0x2F], True, exampleFlow)"
proof -
  let ?p = "exampleTCP 1000 [0x47, 0x45, 0x54, 0x20, 0x2F]"
  let ?r = "ProcessPacket 1 ?p NewStreamReassembler"
  have buf: "[0x47, 0x45, 0x54, 0x20, 0x2F] = currentBuffer 1 ?p NewStreamReassembler"
    by code_simp
  have fk: "snd (snd (fst ?r)) = exampleFlow"
    by code_simp
  from ProcessPacket_non_tls_buffer [OF TCPLayer_example _ buf, of
      "fst (fst ?r)" "fst (snd (fst ?r))" "snd (snd (fst ?r))" "snd ?r"]
  have "fst (snd (fst ?r)) \<and> fst (fst ?r) = [0x47, 0x45, 0x54, 0x20, 0x2F]"
    by simp
  with fk buf show ?thesis
    by (simp add: TCPLayer_example prod_eq_iff)
qed

text \<open>
  Claim C3.  For a TCP packet with payload arriving at an existing, initialised buffer:
  with \<open>seq = nextSeq\<close> the payload is appended if the size stays within 65535 bytes and
  the buffer is reset to the payload alone if it would exceed 65535; with \<open>seq > nextSeq\<close>
  the buffer is reset to the payload alone; with \<open>seq < nextSeq\<close> buffer and \<open>nextSeq\<close> are
  unchanged; in every other case \<open>nextSeq\<close> becomes \<open>seq + len(payload)\<close> (32-bit).  The
  buffer so obtained is the one \<open>ProcessPacket\<close> checks and, if incomplete, stores.
\<close>

theorem ProcessPacket_existing_buffer:
  assumes "TCPLayer packet = Some tcp" and "tcp_Payload tcp \<noteq> []"
    and "streams sr (flowKeyOf packet tcp) = Some stream" and "Initialized stream"
    and "stream' = updateStream now tcp stream"
    and "nextSeq = tcp_Seq tcp + of_nat (length (tcp_Payload tcp))"
  shows "currentBuffer now packet sr = Buffer stream' \<and>
         (tcp_Seq tcp = NextSeq stream \<and>
          length (Buffer stream) + length (tcp_Payload tcp) \<le> 65535 \<longrightarrow>
            Buffer stream' = Buffer stream @ tcp_Payload tcp \<and> NextSeq stream' = nextSeq) \<and>
         (tcp_Seq tcp = NextSeq stream \<and>
          length (Buffer stream) + length (tcp_Payload tcp) > 65535 \<longrightarrow>
            Buffer stream' = tcp_Payload tcp \<and> NextSeq stream' = nextSeq) \<and>
         (tcp_Seq tcp > NextSeq stream \<longrightarrow>
            Buffer stream' = tcp_Payload tcp \<and> NextSeq stream' = nextSeq) \<and>
         (tcp_Seq tcp < NextSeq stream \<longrightarrow>
            Buffer stream' = Buffer stream \<and> NextSeq stream' = NextSeq stream) \<and>
         Initialized stream' \<and>
         ProcessPacket now packet sr =
           (if fst (peekTLSRecord (Buffer stream'))
            then ((snd (peekTLSRecord (Buffer stream')), True, flowKeyOf packet tcp),
                  sr\<lparr>streams := (streams sr)(flowKeyOf packet tcp := None)\<rparr>)
            else (([], False, flowKeyOf packet tcp),
                  sr\<lparr>streams := (streams sr)(flowKeyOf packet tcp \<mapsto> stream')\<rparr>))"
proof -
  have cur: "currentBuffer now packet sr = Buffer stream'"
    using assms(1,3,5) by (simp add: currentBuffer_tcp getOrCreateStream_existing)
  have pp: "ProcessPacket now packet sr =
           (if fst (peekTLSRecord (Buffer stream'))
            then ((snd (peekTLSRecord (Buffer stream')), True, flowKeyOf packet tcp),
                  sr\<lparr>streams := (streams sr)(flowKeyOf packet tcp := None)\<rparr>)
            else (([], False, flowKeyOf packet tcp),
                  sr\<lparr>streams := (streams sr)(flowKeyOf packet tcp \<mapsto> stream')\<rparr>))"
    using ProcessPacket_peek [OF assms(1,2), of now sr] cur assms(3,5)
    by (simp add: getOrCreateStream_existing)
  have upd: "stream' =
     (if tcp_Seq tcp = NextSeq stream then
        (if length (Buffer stream) + length (tcp_Payload tcp) \<le> 65535
         then stream\<lparr>LastActivity := now, Buffer := Buffer stream @ tcp_Payload tcp,
                     NextSeq := nextSeq\<rparr>
         else stream\<lparr>LastActivity := now, Buffer := tcp_Payload tcp, NextSeq := nextSeq\<rparr>)
      else if tcp_Seq tcp > NextSeq stream then
        stream\<lparr>LastActivity := now, Buffer := tcp_Payload tcp, NextSeq := nextSeq\<rparr>
      else stream\<lparr>LastActivity := now\<rparr>)"
    using assms(4,5,6) by (simp add: updateStream_initialized)
  have a: "tcp_Seq tcp = NextSeq stream \<and>
          length (Buffer stream) + length (tcp_Payload tcp) \<le> 65535 \<longrightarrow>
            Buffer stream' = Buffer stream @ tcp_Payload tcp \<and> NextSeq stream' = nextSeq"
    by (simp add: upd)
  have b: "tcp_Seq tcp = NextSeq stream \<and>
          length (Buffer stream) + length (tcp_Payload tcp) > 65535 \<longrightarrow>
            Buffer stream' = tcp_Payload tcp \<and> NextSeq stream' = nextSeq"
    by (simp add: upd)
  have c: "tcp_Seq tcp > NextSeq stream \<longrightarrow>
            Buffer stream' = tcp_Payload tcp \<and> NextSeq stream' = nextSeq"
    by (simp add: upd)
  have d: "tcp_Seq tcp < NextSeq stream \<longrightarrow>
            Buffer stream' = Buffer stream \<and> NextSeq stream' = NextSeq stream"
    by (auto simp add: upd)
  have e: "Initialized stream'"
    using assms(4) by (simp add: upd)
  from cur a b c d e pp show ?thesis by blast
qed

theorem ProcessPacket_existing_buffer_witness:
  "currentBuffer 2 (exampleTCP 1002 [0x03, 0x00, 0x05]) exampleBuffered
     = [0x16, 0x03, 0x03, 0x00, 0x05] \<and>
   currentBuffer 2 (exampleTCP 2000 [0x03, 0x00, 0x05]) exampleBuffered = [0x03, 0x00, 0x05] \<and>
   currentBuffer 2 (exampleTCP 1000 [0x16, 0x03]) exampleBuffered = [0x16, 0x03] \<and>
   NextSeq (updateStream 2 (the (TCPLayer (exampleTCP 1002 [0x03, 0x00, 0x05])))
             (the (streams exampleBuffered exampleFlow))) = 1005 \<and>
   NextSeq (updateStream 2 (the (TCPLayer (exampleTCP 2000 [0x03, 0x00, 0x05])))
             (the (streams exampleBuffered exampleFlow))) = 2003 \<and>
   NextSeq (updateStream 2 (the (TCPLayer (exampleTCP 1000 [0x16, 0x03])))
             (the (streams exampleBuffered exampleFlow))) = 1002"
proof -
  let ?st = "\<lparr>Buffer = [0x16, 0x03], LastActivity = 1, NextSeq = 1002, Initialized = True\<rparr>"
  have fk: "flowKeyOf (exampleTCP seq payload) (the (TCPLayer (exampleTCP seq payload))) = exampleFlow"
    for seq payload
    by (simp add: flowKeyOf_def exampleTCP_def exampleFlow_def)
  have st: "streams exampleBuffered
      (flowKeyOf (exampleTCP seq payload) (the (TCPLayer (exampleTCP seq payload)))) = Some ?st"
    for seq payload
    by (simp add: fk exampleBuffered_def)
  have tl: "TCPLayer (exampleTCP seq payload) = Some (the (TCPLayer (exampleTCP seq payload)))"
    for seq payload
    by (simp add: exampleTCP_def)
  have sq: "tcp_Seq (the (TCPLayer (exampleTCP seq payload))) = seq"
    and pl: "tcp_Payload (the (TCPLayer (exampleTCP seq payload))) = payload"
    for seq payload
    by (simp_all add: exampleTCP_def)
  have w1: "currentBuffer 2 (exampleTCP 1002 [0x03, 0x00, 0x05]) exampleBuffered
        = [0x16, 0x03, 0x03, 0x00, 0x05] \<and>
      NextSeq (updateStream 2 (the (TCPLayer (exampleTCP 1002 [0x03, 0x00, 0x05]))) ?st) = 1005"
    using ProcessPacket_existing_buffer [OF tl [of 1002 "[0x03, 0x00, 0x05]"] _
        st [of 1002 "[0x03, 0x00, 0x05]"] _ refl refl, of 2]
    by (simp add: sq pl)
  have w2: "currentBuffer 2 (exampleTCP 2000 [0x03, 0x00, 0x05]) exampleBuffered
        = [0x03, 0x00, 0x05] \<and>
      NextSeq (updateStream 2 (the (TCPLayer (exampleTCP 2000 [0x03, 0x00, 0x05]))) ?st) = 2003"
    using ProcessPacket_existing_buffer [OF tl [of 2000 "[0x03, 0x00, 0x05]"] _
        st [of 2000 "[0x03, 0x00, 0x05]"] _ refl refl, of 2]
    by (simp add: sq pl)
  have w3: "currentBuffer 2 (exampleTCP 1000 [0x16, 0x03]) exampleBuffered = [0x16, 0x03] \<and>
      NextSeq (updateStream 2 (the (TCPLayer (exampleTCP 1000 [0x16, 0x03]))) ?st) = 1002"
    using ProcessPacket_existing_buffer [OF tl [of 1000 "[0x16, 0x03]"] _
        st [of 1000 "[0x16, 0x03]"] _ refl refl, of 2]
    by (simp add: sq pl)
  have "the (streams exampleBuffered exampleFlow) = ?st"
    by (simp add: exampleBuffered_def)
  with w1 w2 w3 show ?thesis by simp
qed

section \<open>Facts about the parser\<close>

lemma serverNameLoop_unfold:
  "serverNameLoop data pos =
     (if pos + 3 \<le> length data then
        (let nameLen = be16_int (data ! (pos + 1)) (data ! (pos + 2))
         in if pos + 3 + nameLen > length data then Some []
            else if data ! pos = 0x00 then Some (go_string (take nameLen (drop (pos + 3) data)))
            else serverNameLoop data (pos + 3 + nameLen))
      else Some [])"
  by (subst serverNameLoop.simps) (simp add: at_def slice_def Let_def)

lemma serverNameLoop_total: "\<exists>s. serverNameLoop data pos = Some s"
proof (induction "length data - pos" arbitrary: pos rule: less_induct)
  case less
  show ?case
  proof (cases "pos + 3 \<le> length data")
    case False
    then show ?thesis by (subst serverNameLoop_unfold) simp
  next
    case True
    let ?n = "be16_int (data ! (pos + 1)) (data ! (pos + 2))"
    from True have "length data - (pos + 3 + ?n) < length data - pos" by simp
    from less [OF this] obtain s where "serverNameLoop data (pos + 3 + ?n) = Some s" by blast
    then show ?thesis by (subst serverNameLoop_unfold) (simp add: Let_def)
  qed
qed

lemma parseSNIExtension_unfold:
  "parseSNIExtension data =
     (if length data < 2 then Some []
      else if length data < 2 + be16_int (data ! 0) (data ! 1) then Some []
      else serverNameLoop data 2)"
  by (simp add: parseSNIExtension_def at_def Let_def)

lemma parseSNIExtension_total: "\<exists>s. parseSNIExtension data = Some s"
  using serverNameLoop_total [of data 2] by (auto simp: parseSNIExtension_unfold)

lemma extensionLoop_unfold:
  assumes "extensionsEnd \<le> length payload"
  shows "extensionLoop payload extensionsEnd pos =
     (if pos + 4 \<le> extensionsEnd then
        (let extLen = be16_int (payload ! (pos + 2)) (payload ! (pos + 3))
         in if pos + 4 + extLen > length payload then Some []
            else if be16_uint16 (payload ! pos) (payload ! (pos + 1)) = 0x0000
              then parseSNIExtension (take extLen (drop (pos + 4) payload))
            else extensionLoop payload extensionsEnd (pos + 4 + extLen))
      else Some [])"
  using assms by (subst extensionLoop.simps) (simp add: at_def slice_def Let_def)

lemma extensionLoop_total:
  assumes "extensionsEnd \<le> length payload"
  shows "\<exists>s. extensionLoop payload extensionsEnd pos = Some s"
proof (induction "extensionsEnd - pos" arbitrary: pos rule: less_induct)
  case less
  show ?case
  proof (cases "pos + 4 \<le> extensionsEnd")
    case False
    then show ?thesis by (subst extensionLoop_unfold [OF assms]) simp
  next
    case True
    let ?n = "be16_int (payload ! (pos + 2)) (payload ! (pos + 3))"
    from True have "extensionsEnd - (pos + 4 + ?n) < extensionsEnd - pos" by simp
    from less [OF this] obtain s where "extensionLoop payload extensionsEnd (pos + 4 + ?n) = Some s"
      by blast
    moreover obtain t where "parseSNIExtension (take ?n (drop (pos + 4) payload)) = Some t"
      using parseSNIExtension_total by blast
    ultimately show ?thesis by (subst extensionLoop_unfold [OF assms]) (simp add: Let_def)
  qed
qed

lemma extractSNI_short: "length payload < 6 \<Longrightarrow> extractSNI payload = Some []"
  by (simp add: extractSNI_def)

lemma extractSNI_truncated_record:
  assumes "6 \<le> length payload"
    and "length payload < 5 + (unat (payload ! 3) * 256 + unat (payload ! 4))"
  shows "extractSNI payload = Some []"
  using assms by (auto simp add: extractSNI_def at_def Let_def be16_int_eq)

lemma extractSNI_total: "\<exists>sni. extractSNI payload = Some sni"
proof -
  have "\<exists>s. extensionLoop payload (pos + n) pos = Some s" if "pos + n \<le> length payload" for pos n
    using extensionLoop_total [OF that] .
  then show ?thesis
    by (simp add: extractSNI_def at_def Let_def)
qed


text \<open>
  Claim C5.  \<open>extractSNI\<close> and \<open>parseSNIExtension\<close> return a string for every byte
  string: every index and slice they take is in range (a read out of range would be
  \<open>None\<close>).  A payload shorter than 6 bytes, or shorter than the record length it declares,
  yields the empty string.  The well-formed ClientHello for \<open>example.com\<close> yields exactly
  \<open>example.com\<close>; with the last byte of the extensions block missing it yields the empty
  string, whichever of the enclosing length fields still count the missing byte.  Of
  several name entries the first with name type 0 is returned.
\<close>

theorem extractSNI_total_fail_closed:
  "(\<forall>payload. \<exists>sni. extractSNI payload = Some sni) \<and>
   (\<forall>data. \<exists>sni. parseSNIExtension data = Some sni) \<and>
   (\<forall>payload. length payload < 6 \<longrightarrow> extractSNI payload = Some []) \<and>
   (\<forall>payload. 6 \<le> length payload \<and>
       length payload < 5 + (unat (payload ! 3) * 256 + unat (payload ! 4)) \<longrightarrow>
       extractSNI payload = Some []) \<and>
   extractSNI (clientHelloWith 74 70 27 16 14 11 ''example.com'') = Some ''example.com'' \<and>
   extractSNI (clientHelloWith 74 70 27 16 14 11 ''example.co'') = Some [] \<and>
   extractSNI (clientHelloWith 73 69 27 16 14 11 ''example.co'') = Some [] \<and>
   extractSNI (clientHelloWith 73 69 26 16 14 11 ''example.co'') = Some [] \<and>
   extractSNI (clientHelloWith 73 69 26 15 14 11 ''example.co'') = Some [] \<and>
   extractSNI (clientHelloWith 73 69 26 15 13 11 ''example.co'') = Some [] \<and>
   parseSNIExtension (u16 13 @ [0x01] @ u16 1 @ map of_char ''x'' @
                      [0x00] @ u16 3 @ map of_char ''a.b'' @
                      [0x00] @ u16 3 @ map of_char ''c.d'') = Some ''a.b''"
proof (intro conjI allI impI)
  show "\<exists>sni. extractSNI payload = Some sni" for payload by (rule extractSNI_total)
  show "\<exists>sni. parseSNIExtension data = Some sni" for data by (rule parseSNIExtension_total)
  show "extractSNI payload = Some []" if "length payload < 6" for payload
    using that by (rule extractSNI_short)
  show "extractSNI payload = Some []"
    if "6 \<le> length payload \<and> length payload < 5 + (unat (payload ! 3) * 256 + unat (payload ! 4))"
    for payload
    using that by (simp add: extractSNI_truncated_record)
  show "extractSNI (clientHelloWith 74 70 27 16 14 11 ''example.com'') = Some ''example.com''"
    by code_simp
  show "extractSNI (clientHelloWith 74 70 27 16 14 11 ''example.co'') = Some []"
    by code_simp
  show "extractSNI (clientHelloWith 73 69 27 16 14 11 ''example.co'') = Some []"
    by code_simp
  show "extractSNI (clientHelloWith 73 69 26 16 14 11 ''example.co'') = Some []"
    by code_simp
  show "extractSNI (clientHelloWith 73 69 26 15 14 11 ''example.co'') = Some []"
    by code_simp
  show "extractSNI (clientHelloWith 73 69 26 15 13 11 ''example.co'') = Some []"
    by code_simp
  show "parseSNIExtension (u16 13 @ [0x01] @ u16 1 @ map of_char ''x'' @
                      [0x00] @ u16 3 @ map of_char ''a.b'' @
                      [0x00] @ u16 3 @ map of_char ''c.d'') = Some ''a.b''"
    by code_simp
qed

theorem extractSNI_total_fail_closed_witness:
  "6 \<le> length (clientHelloWith 74 70 27 16 14 11 ''example.co'') \<and>
   length (clientHelloWith 74 70 27 16 14 11 ''example.co'')
     < 5 + (unat (clientHelloWith 74 70 27 16 14 11 ''example.co'' ! 3) * 256 +
            unat (clientHelloWith 74 70 27 16 14 11 ''example.co'' ! 4)) \<and>
   extractSNI (clientHelloWith 74 70 27 16 14 11 ''example.co'') = Some [] \<and>
   length (take 5 (clientHelloWith 74 70 27 16 14 11 ''example.com'')) < 6 \<and>
   extractSNI (take 5 (clientHelloWith 74 70 27 16 14 11 ''example.com'')) = Some []"
proof -
  let ?p = "clientHelloWith 74 70 27 16 14 11 ''example.co''"
  let ?q = "take 5 (clientHelloWith 74 70 27 16 14 11 ''example.com'')"
  have h: "6 \<le> length ?p \<and> length ?p < 5 + (unat (?p ! 3) * 256 + unat (?p ! 4))"
    by code_simp
  have k: "length ?q < 6" by simp
  from extractSNI_total_fail_closed [THEN conjunct2, THEN conjunct2, THEN conjunct2,
      THEN conjunct1, rule_format, OF h]
    extractSNI_total_fail_closed [THEN conjunct2, THEN conjunct2, THEN conjunct1,
      rule_format, OF k] h k
  show ?thesis by blast
qed

lemma be16_uint16_unat: "unat (be16_uint16 hi lo) = unat hi * 256 + unat lo"
proof -
  have "be16_uint16 hi lo = word_of_nat (be16_int hi lo)"
    unfolding be16_uint16_def be16_int_def
    by (metis of_nat_or_eq of_nat_unat push_bit_of_nat)
  then have a: "be16_uint16 hi lo = word_of_nat (unat hi * 256 + unat lo)"
    by (simp only: be16_int_eq)
  have b: "unat (word_of_nat n :: 16 word) = n" if "n < 65536" for n
    using that by (simp add: unat_of_nat take_bit_nat_eq_self)
  have c: "unat hi * 256 + unat lo < 65536"
    using unsigned_less [of hi, where 'a = nat] unsigned_less [of lo, where 'a = nat] by simp
  show ?thesis unfolding a by (rule b) (rule c)
qed

lemma isTLSHandshake_iff:
  "isTLSHandshake payload \<longleftrightarrow>
     6 \<le> length payload \<and> payload ! 0 = 0x16 \<and>
     0x0301 \<le> unat (payload ! 1) * 256 + unat (payload ! 2) \<and>
     unat (payload ! 1) * 256 + unat (payload ! 2) \<le> 0x0304"
proof -
  let ?v = "be16_uint16 (payload ! 1) (payload ! 2)"
  have "?v < 0x0301 \<longleftrightarrow> unat ?v < 0x0301" by (simp add: word_less_nat_alt)
  moreover have "?v > 0x0304 \<longleftrightarrow> unat ?v > 0x0304" by (simp add: word_less_nat_alt)
  ultimately show ?thesis
    by (auto simp add: isTLSHandshake_def Let_def be16_uint16_unat)
qed

lemma getTLSVersionString_label:
  assumes "0x0301 \<le> unat v" and "unat v \<le> 0x0304"
  shows "getTLSVersionString v =
     (if unat v = 0x0301 then ''TLS 1.0'' else if unat v = 0x0302 then ''TLS 1.1''
      else if unat v = 0x0303 then ''TLS 1.2'' else ''TLS 1.3'')"
proof -
  have eq: "v = n \<longleftrightarrow> unat v = unat n" for n :: "16 word" by (simp add: word_unat_eq_iff)
  from assms have "unat v = 0x0301 \<or> unat v = 0x0302 \<or> unat v = 0x0303 \<or> unat v = 0x0304"
    by arith
  then show ?thesis
    by (auto simp add: getTLSVersionString_def eq [of "0x0301"] eq [of "0x0302"] eq [of "0x0303"] eq [of "0x0304"])
qed

lemma parseTLS_result:
  assumes "extractSNI (Payload info) = Some sni"
  shows "parseTLS info =
     Some (if isTLSHandshake (Payload info)
           then info\<lparr>IsTLS := True,
                      TLSVersion := getTLSVersionString
                        (be16_uint16 (Payload info ! 1) (Payload info ! 2)),
                      SNI := (if sni \<noteq> [] then sni else SNI info)\<rparr>
           else info)"
  using assms by (auto simp add: parseTLS_def Let_def isTLSHandshake_def)

lemma parseTLS_marks_handshake:
  assumes "payload = Payload info"
    and "v = unat (payload ! 1) * 256 + unat (payload ! 2)"
    and "tls \<longleftrightarrow> 6 \<le> length payload \<and> payload ! 0 = 0x16 \<and> 0x0301 \<le> v \<and> v \<le> 0x0304"
  shows "\<exists>sni info'.
           extractSNI payload = Some sni \<and> parseTLS info = Some info' \<and>
           (\<not> IsTLS info \<longrightarrow> (IsTLS info' \<longleftrightarrow> tls)) \<and>
           (tls \<longrightarrow> IsTLS info' \<and>
              TLSVersion info' =
                (if v = 0x0301 then ''TLS 1.0'' else if v = 0x0302 then ''TLS 1.1''
                 else if v = 0x0303 then ''TLS 1.2'' else ''TLS 1.3'') \<and>
              SNI info' = (if sni \<noteq> [] then sni else SNI info)) \<and>
           (\<not> tls \<longrightarrow> info' = info)"
proof -
  obtain sni where sni: "extractSNI (Payload info) = Some sni"
    using extractSNI_total by blast
  have tls: "tls \<longleftrightarrow> isTLSHandshake (Payload info)"
    using assms by (simp add: isTLSHandshake_iff)
  have v: "unat (be16_uint16 (Payload info ! 1) (Payload info ! 2)) = v"
    using assms(1,2) by (simp add: be16_uint16_unat)
  have label: "tls \<Longrightarrow> getTLSVersionString (be16_uint16 (Payload info ! 1) (Payload info ! 2)) =
      (if v = 0x0301 then ''TLS 1.0'' else if v = 0x0302 then ''TLS 1.1''
       else if v = 0x0303 then ''TLS 1.2'' else ''TLS 1.3'')"
    using getTLSVersionString_label [of "be16_uint16 (Payload info ! 1) (Payload info ! 2)"]
      assms(3) unfolding v by simp
  show ?thesis
    using sni tls label assms(1) by (cases tls) (simp_all add: parseTLS_result)
qed

lemma parseTLS_total: "\<exists>info'. parseTLS info = Some info'"
  using extractSNI_total [of "Payload info"] by (auto simp add: parseTLS_result)

lemma parseTLS_fields:
  assumes "parseTLS info = Some info'"
  shows "Payload info' = Payload info" "Protocol info' = Protocol info"
    "SrcPort info' = SrcPort info" "DstPort info' = DstPort info"
    "IsDNS info' = IsDNS info" "DNSQueryName info' = DNSQueryName info"
    "DNSResponseIPs info' = DNSResponseIPs info"
    "SrcIP info' = SrcIP info" "DstIP info' = DstIP info"
proof -
  obtain sni where "extractSNI (Payload info) = Some sni" using extractSNI_total by blast
  from parseTLS_result [OF this] assms
  show "Payload info' = Payload info" "Protocol info' = Protocol info"
    "SrcPort info' = SrcPort info" "DstPort info' = DstPort info"
    "IsDNS info' = IsDNS info" "DNSQueryName info' = DNSQueryName info"
    "DNSResponseIPs info' = DNSResponseIPs info"
    "SrcIP info' = SrcIP info" "DstIP info' = DstIP info"
    by (auto split: if_splits)
qed

lemma parseDNS_tls_fields:
  "IsTLS (parseDNS packet info) = IsTLS info"
  "TLSVersion (parseDNS packet info) = TLSVersion info"
  "SNI (parseDNS packet info) = SNI info"
  "Payload (parseDNS packet info) = Payload info"
  by (simp_all add: parseDNS_def Let_def split: option.splits list.splits)

lemma determineDirection_fields:
  "IsTLS (determineDirection info) = IsTLS info"
  "TLSVersion (determineDirection info) = TLSVersion info"
  "SNI (determineDirection info) = SNI info"
  "Payload (determineDirection info) = Payload info"
  "IsDNS (determineDirection info) = IsDNS info"
  "DNSQueryName (determineDirection info) = DNSQueryName info"
  "DNSResponseIPs (determineDirection info) = DNSResponseIPs info"
  "Protocol (determineDirection info) = Protocol info"
  "SrcPort (determineDirection info) = SrcPort info"
  "DstPort (determineDirection info) = DstPort info"
  "SrcIP (determineDirection info) = SrcIP info"
  "DstIP (determineDirection info) = DstIP info"
  by (simp_all add: determineDirection_def Let_def)

text \<open>The record \<open>Parse\<close> holds before the application layer is parsed.\<close>

lemma transport_fields:
  "IsTLS (parseTransportLayer packet (parseNetworkLayer packet (newPacketInfo packet))) = False"
  "IsDNS (parseTransportLayer packet (parseNetworkLayer packet (newPacketInfo packet))) = False"
  "DNSQueryName (parseTransportLayer packet (parseNetworkLayer packet (newPacketInfo packet))) = []"
  "DNSResponseIPs (parseTransportLayer packet (parseNetworkLayer packet (newPacketInfo packet))) = []"
  by (simp_all add: parseTransportLayer_def parseNetworkLayer_def newPacketInfo_def
      split: option.splits prod.splits)


lemma transport_protocol:
  "Protocol (parseTransportLayer packet (parseNetworkLayer packet (newPacketInfo packet))) =
     (if TCPLayer packet \<noteq> None then ''TCP'' else if UDPLayer packet \<noteq> None then ''UDP'' else [])"
  by (simp add: parseTransportLayer_def parseNetworkLayer_def newPacketInfo_def
      split: option.splits prod.splits)

lemma Parse_not_ready:
  assumes "ProcessPacket now packet (reassembler p) = ((data, False, flowKey), sr)"
  shows "Parse now packet p = Some (None, p\<lparr>reassembler := sr\<rparr>)"
  using assms by (simp add: Parse_def)

lemma Parse_reassembled:
  assumes "ProcessPacket now packet (reassembler p) = ((data, True, flowKey), sr)"
    and "data \<noteq> []"
    and "parseTLS ((parseTransportLayer packet (parseNetworkLayer packet (newPacketInfo packet)))
           \<lparr>Payload := data\<rparr>) = Some info"
  shows "Parse now packet p = Some (Some (determineDirection info), p\<lparr>reassembler := sr\<rparr>)"
  using assms by (simp add: Parse_def parseApplicationLayerWithPayload_def)

lemma Parse_raw:
  assumes "ProcessPacket now packet (reassembler p) = (([], True, flowKey), sr)"
    and "parseApplicationLayer packet
           (parseTransportLayer packet (parseNetworkLayer packet (newPacketInfo packet))) = Some info"
  shows "Parse now packet p = Some (Some (determineDirection info), p\<lparr>reassembler := sr\<rparr>)"
  using assms by (simp add: Parse_def)

lemma parseApplicationLayer_total: "\<exists>info'. parseApplicationLayer packet info = Some info'"
proof -
  obtain i where "parseTLS (case ApplicationLayer packet of
                    Some appLayer \<Rightarrow> info\<lparr>AppProtocol := fst appLayer\<rparr>
                  | None \<Rightarrow> info) = Some i"
    using parseTLS_total by blast
  then show ?thesis by (simp add: parseApplicationLayer_def Let_def)
qed

lemma Parse_total: "\<exists>r. Parse now packet p = Some r"
proof -
  obtain data ready flowKey sr
    where pp: "ProcessPacket now packet (reassembler p) = ((data, ready, flowKey), sr)"
    by (metis prod.exhaust)
  show ?thesis
  proof (cases ready)
    case False
    with pp show ?thesis by (simp add: Parse_not_ready)
  next
    case True
    show ?thesis
    proof (cases "data = []")
      case False
      obtain i where "parseTLS ((parseTransportLayer packet (parseNetworkLayer packet
          (newPacketInfo packet)))\<lparr>Payload := data\<rparr>) = Some i"
        using parseTLS_total by blast
      with pp True False show ?thesis by (simp add: Parse_reassembled)
    next
      case e: True
      obtain i where "parseApplicationLayer packet
           (parseTransportLayer packet (parseNetworkLayer packet (newPacketInfo packet))) = Some i"
        using parseApplicationLayer_total by blast
      with pp True e show ?thesis by (simp add: Parse_raw)
    qed
  qed
qed

lemma transport_sni:
  "SNI (parseTransportLayer packet (parseNetworkLayer packet (newPacketInfo packet))) = []"
  by (simp add: parseTransportLayer_def parseNetworkLayer_def newPacketInfo_def
      split: option.splits prod.splits)

lemma parseTLS_fresh:
  assumes "\<not> IsTLS info" and "SNI info = []" and "parseTLS info = Some info'"
  shows "Payload info' = Payload info \<and>
         (IsTLS info' \<longleftrightarrow> isTLSHandshake (Payload info)) \<and>
         (IsTLS info' \<longrightarrow>
            TLSVersion info' = getTLSVersionString (be16_uint16 (Payload info ! 1) (Payload info ! 2)) \<and>
            extractSNI (Payload info) = Some (SNI info'))"
proof -
  obtain sni where sni: "extractSNI (Payload info) = Some sni" using extractSNI_total by blast
  from parseTLS_result [OF sni] assms show ?thesis
    using sni by (auto split: if_splits)
qed

lemma Parse_tls_fields:
  assumes "Parse now packet p = Some (Some info, p')"
  shows "(IsTLS info \<longleftrightarrow> isTLSHandshake (Payload info)) \<and>
         (IsTLS info \<longrightarrow>
            TLSVersion info = getTLSVersionString (be16_uint16 (Payload info ! 1) (Payload info ! 2)) \<and>
            extractSNI (Payload info) = Some (SNI info))"
proof -
  let ?base = "parseTransportLayer packet (parseNetworkLayer packet (newPacketInfo packet))"
  obtain data ready flowKey sr
    where pp: "ProcessPacket now packet (reassembler p) = ((data, ready, flowKey), sr)"
    by (metis prod.exhaust)
  have ready: ready
    using assms pp by (cases ready) (simp_all add: Parse_not_ready)
  show ?thesis
  proof (cases "data = []")
    case False
    obtain i where i: "parseTLS (?base\<lparr>Payload := data\<rparr>) = Some i"
      using parseTLS_total by blast
    have "info = determineDirection i"
      using Parse_reassembled [OF pp [unfolded ready [THEN eqTrueI]] False i] assms by simp
    moreover have "\<not> IsTLS (?base\<lparr>Payload := data\<rparr>)" "SNI (?base\<lparr>Payload := data\<rparr>) = []"
      by (simp_all add: transport_fields transport_sni)
    from parseTLS_fresh [OF this i] have
      "Payload i = data \<and> (IsTLS i \<longleftrightarrow> isTLSHandshake data) \<and>
         (IsTLS i \<longrightarrow> TLSVersion i = getTLSVersionString (be16_uint16 (data ! 1) (data ! 2)) \<and>
            extractSNI data = Some (SNI i))"
      by simp
    ultimately show ?thesis by (simp add: determineDirection_fields)
  next
    case True
    let ?a = "case ApplicationLayer packet of
                Some appLayer \<Rightarrow> ?base\<lparr>AppProtocol := fst appLayer\<rparr> | None \<Rightarrow> ?base"
    have a: "\<not> IsTLS ?a" "SNI ?a = []" "Payload ?a = Payload ?base"
      by (simp_all add: transport_fields transport_sni split: option.splits)
    obtain i where i: "parseApplicationLayer packet ?base = Some i"
      using parseApplicationLayer_total by blast
    have info: "info = determineDirection i"
      using Parse_raw [OF pp [unfolded ready [THEN eqTrueI] True] i] assms by simp
    have "(IsTLS i \<longleftrightarrow> isTLSHandshake (Payload i)) \<and>
         (IsTLS i \<longrightarrow>
            TLSVersion i = getTLSVersionString (be16_uint16 (Payload i ! 1) (Payload i ! 2)) \<and>
            extractSNI (Payload i) = Some (SNI i))"
    proof (cases "Payload ?base = []")
      case e: True
      with i a have "i = ?a" by (simp add: parseApplicationLayer_def Let_def)
      with a e show ?thesis by (simp add: isTLSHandshake_def)
    next
      case ne: False
      obtain j where j: "parseTLS ?a = Some j" using parseTLS_total by blast
      from parseTLS_fresh [OF a(1,2) j] a(3) have jf:
        "Payload j = Payload ?base \<and> (IsTLS j \<longleftrightarrow> isTLSHandshake (Payload ?base)) \<and>
         (IsTLS j \<longrightarrow> TLSVersion j = getTLSVersionString
              (be16_uint16 (Payload ?base ! 1) (Payload ?base ! 2)) \<and>
            extractSNI (Payload ?base) = Some (SNI j))"
        by simp
      from i j ne a(3) have "i = j \<or> i = parseDNS packet j"
        by (auto simp add: parseApplicationLayer_def Let_def split: if_splits)
      with jf show ?thesis by (auto simp add: parseDNS_tls_fields)
    qed
    with info show ?thesis by (simp add: determineDirection_fields)
  qed
qed

text \<open>
  Claim C9, as stated, fails: the 5-byte TCP payload \<open>16 03 03 00 00\<close> has byte 0 equal
  to 0x16 and version 0x0303, it is handed to the parser as a complete record, and it is
  not marked as TLS, because \<open>isTLSHandshake\<close> refuses every payload shorter than 6 bytes.
\<close>

theorem short_tls_header_counterexample:
  "[0x16, 0x03, 0x03, 0x00, 0x00 :: byte] ! 0 = 0x16 \<and>
   unat ([0x16, 0x03, 0x03, 0x00, 0x00 :: byte] ! 1) * 256 +
     unat ([0x16, 0x03, 0x03, 0x00, 0x00 :: byte] ! 2) = 0x0303 \<and>
   map_option (map_option Payload \<circ> fst)
     (Parse 1 (exampleTCP 1000 [0x16, 0x03, 0x03, 0x00, 0x00]) NewPacketParser)
     = Some (Some [0x16, 0x03, 0x03, 0x00, 0x00]) \<and>
   map_option (map_option IsTLS \<circ> fst)
     (Parse 1 (exampleTCP 1000 [0x16, 0x03, 0x03, 0x00, 0x00]) NewPacketParser)
     = Some (Some False)"
  by code_simp

text \<open>
  Claim C9, amended.  A payload is marked as TLS if and only if it has at least 6 bytes,
  byte 0 equals 0x16 and bytes 1-2, read as a big-endian 16-bit version, lie in 0x0301
  to 0x0304.  On a match the TLS version field is the label of that version (TLS 1.0 to
  TLS 1.3) and \<open>extractSNI\<close> is run on the payload, its result becoming the SNI when it
  is not empty.  This holds of \<open>parseTLS\<close> on any record not yet marked, and of every
  \<open>PacketInfo\<close> that \<open>Parse\<close> returns, for the payload it carries.
\<close>

theorem Parse_marks_tls_handshake:
  "(\<forall>(info :: PacketInfo) payload v tls.
      payload = Payload info \<and>
      v = unat (payload ! 1) * 256 + unat (payload ! 2) \<and>
      (tls \<longleftrightarrow> 6 \<le> length payload \<and> payload ! 0 = 0x16 \<and> 0x0301 \<le> v \<and> v \<le> 0x0304) \<longrightarrow>
      (\<exists>sni info'.
         extractSNI payload = Some sni \<and> parseTLS info = Some info' \<and>
         (\<not> IsTLS info \<longrightarrow> (IsTLS info' \<longleftrightarrow> tls)) \<and>
         (tls \<longrightarrow> IsTLS info' \<and>
            TLSVersion info' =
              (if v = 0x0301 then ''TLS 1.0'' else if v = 0x0302 then ''TLS 1.1''
               else if v = 0x0303 then ''TLS 1.2'' else ''TLS 1.3'') \<and>
            SNI info' = (if sni \<noteq> [] then sni else SNI info)) \<and>
         (\<not> tls \<longrightarrow> info' = info)))
   \<and>
   (\<forall>now packet p info p' payload v.
      Parse now packet p = Some (Some info, p') \<and>
      payload = Payload info \<and>
      v = unat (payload ! 1) * 256 + unat (payload ! 2) \<longrightarrow>
      (IsTLS info \<longleftrightarrow>
         6 \<le> length payload \<and> payload ! 0 = 0x16 \<and> 0x0301 \<le> v \<and> v \<le> 0x0304) \<and>
      (IsTLS info \<longrightarrow>
         TLSVersion info =
           (if v = 0x0301 then ''TLS 1.0'' else if v = 0x0302 then ''TLS 1.1''
            else if v = 0x0303 then ''TLS 1.2'' else ''TLS 1.3'') \<and>
         extractSNI payload = Some (SNI info)))"
proof (intro conjI allI impI)
  fix info :: PacketInfo and payload v tls
  assume "payload = Payload info \<and>
      v = unat (payload ! 1) * 256 + unat (payload ! 2) \<and>
      (tls \<longleftrightarrow> 6 \<le> length payload \<and> payload ! 0 = 0x16 \<and> 0x0301 \<le> v \<and> v \<le> 0x0304)"
  then show "\<exists>sni info'.
         extractSNI payload = Some sni \<and> parseTLS info = Some info' \<and>
         (\<not> IsTLS info \<longrightarrow> (IsTLS info' \<longleftrightarrow> tls)) \<and>
         (tls \<longrightarrow> IsTLS info' \<and>
            TLSVersion info' =
              (if v = 0x0301 then ''TLS 1.0'' else if v = 0x0302 then ''TLS 1.1''
               else if v = 0x0303 then ''TLS 1.2'' else ''TLS 1.3'') \<and>
            SNI info' = (if sni \<noteq> [] then sni else SNI info)) \<and>
         (\<not> tls \<longrightarrow> info' = info)"
    by (intro parseTLS_marks_handshake) blast+
next
  fix now packet p info p' payload v
  assume h: "Parse now packet p = Some (Some info, p') \<and>
      payload = Payload info \<and>
      v = unat (payload ! 1) * 256 + unat (payload ! 2)"
  then have P: "Parse now packet p = Some (Some info, p')" and pl: "payload = Payload info"
    and v: "v = unat (payload ! 1) * 256 + unat (payload ! 2)" by blast+
  note F = Parse_tls_fields [OF P, folded pl]
  show iff: "IsTLS info \<longleftrightarrow>
         6 \<le> length payload \<and> payload ! 0 = 0x16 \<and> 0x0301 \<le> v \<and> v \<le> 0x0304"
    using F v by (simp add: isTLSHandshake_iff)
  assume tls: "IsTLS info"
  with F show "extractSNI payload = Some (SNI info)" by simp
  have "unat (be16_uint16 (payload ! 1) (payload ! 2)) = v"
    using v by (simp add: be16_uint16_unat)
  with getTLSVersionString_label [of "be16_uint16 (payload ! 1) (payload ! 2)"] iff tls F
  show "TLSVersion info =
           (if v = 0x0301 then ''TLS 1.0'' else if v = 0x0302 then ''TLS 1.1''
            else if v = 0x0303 then ''TLS 1.2'' else ''TLS 1.3'')"
    by simp
qed

theorem Parse_marks_tls_handshake_witness:
  "map_option (map_option IsTLS \<circ> fst)
     (Parse 1 (exampleTCP 1000 (clientHelloWith 74 70 27 16 14 11 ''example.com'')) NewPacketParser)
     = Some (Some True) \<and>
   map_option (map_option TLSVersion \<circ> fst)
     (Parse 1 (exampleTCP 1000 (clientHelloWith 74 70 27 16 14 11 ''example.com'')) NewPacketParser)
     = Some (Some ''TLS 1.0'') \<and>
   map_option (map_option SNI \<circ> fst)
     (Parse 1 (exampleTCP 1000 (clientHelloWith 74 70 27 16 14 11 ''example.com'')) NewPacketParser)
     = Some (Some ''example.com'')"
proof -
  let ?hello = "clientHelloWith 74 70 27 16 14 11 ''example.com''"
  let ?X = "Parse 1 (exampleTCP 1000 ?hello) NewPacketParser"
  have pl: "map_option (map_option Payload \<circ> fst) ?X = Some (Some ?hello)"
    by code_simp
  then obtain info p' where X: "?X = Some (Some info, p')" and info: "Payload info = ?hello"
    by (cases ?X) (auto simp: comp_def split: option.splits)
  have c: "6 \<le> length ?hello \<and> ?hello ! 0 = 0x16 \<and>
      0x0301 \<le> unat (?hello ! 1) * 256 + unat (?hello ! 2) \<and>
      unat (?hello ! 1) * 256 + unat (?hello ! 2) \<le> 0x0304"
    and v: "unat (?hello ! 1) * 256 + unat (?hello ! 2) = 0x0301"
    and s: "extractSNI ?hello = Some ''example.com''"
    by code_simp+
  from Parse_marks_tls_handshake [THEN conjunct2, rule_format,
      of 1 "exampleTCP 1000 ?hello" NewPacketParser info p' ?hello
         "unat (?hello ! 1) * 256 + unat (?hello ! 2)"] X info c
  have "IsTLS info \<and> TLSVersion info = ''TLS 1.0'' \<and> extractSNI ?hello = Some (SNI info)"
    unfolding v by simp
  with s X show ?thesis by simp
qed




lemma ProcessPacket_tcp_protocol:
  assumes "TCPLayer packet = Some tcp"
  shows "Protocol (parseTransportLayer packet (parseNetworkLayer packet (newPacketInfo packet))) = ''TCP''"
  using assms by (simp add: parseTransportLayer_def)








lemma digitChar_digit: "digitChar k \<in> set ''0123456789''"
  unfolding digitChar_def by (rule nth_mem) simp

lemma digitVal_digitChar: "k < 10 \<Longrightarrow> digitVal (digitChar k) = k"
proof -
  have "\<forall>k \<in> set [0 ..< 10]. digitVal (digitChar k) = k" by code_simp
  then show "k < 10 \<Longrightarrow> digitVal (digitChar k) = k" by simp
qed

lemma decimal_digits: "set (decimal n) \<subseteq> set ''0123456789''"
proof (induction n rule: decimal.induct)
  case (1 n)
  show ?case
  proof (cases "n < 10")
    case True
    then show ?thesis using digitChar_digit [of n] by (subst decimal.simps) simp
  next
    case False
    with 1 digitChar_digit [of "n mod 10"] show ?thesis by (subst decimal.simps) simp
  qed
qed

lemma decimal_nonempty: "decimal n \<noteq> []"
  by (subst decimal.simps) simp

lemma parseDecimal_snoc: "parseDecimal (xs @ [c]) = parseDecimal xs * 10 + digitVal c"
  by (simp add: parseDecimal_def)

lemma parseDecimal_decimal: "parseDecimal (decimal n) = n"
proof (induction n rule: decimal.induct)
  case (1 n)
  show ?case
  proof (cases "n < 10")
    case True
    then show ?thesis
      by (subst decimal.simps) (simp add: parseDecimal_def digitVal_digitChar)
  next
    case False
    with 1 show ?thesis
      by (subst decimal.simps) (simp add: parseDecimal_snoc digitVal_digitChar)
  qed
qed

lemma decimal_inj: "decimal m = decimal n \<longleftrightarrow> m = n"
  by (metis parseDecimal_decimal)

lemma decimal_no_dot: "CHR ''.'' \<notin> set (decimal n)"
  using decimal_digits [of n] by auto

lemma HasPrefix_dot:
  assumes "CHR ''.'' \<notin> set xs" and "CHR ''.'' \<notin> set ys"
  shows "HasPrefix (xs @ CHR ''.'' # r) (ys @ CHR ''.'' # zs) \<longleftrightarrow> xs = ys \<and> HasPrefix r zs"
  using assms
proof (induction xs arbitrary: ys)
  case Nil
  then show ?case by (cases ys) (auto simp add: HasPrefix_def)
next
  case (Cons x xs)
  show ?case
  proof (cases ys)
    case Nil
    with Cons.prems show ?thesis by (auto simp add: HasPrefix_def)
  next
    case (Cons y ys')
    with Cons.prems Cons.IH [of ys'] show ?thesis by (auto simp add: HasPrefix_def)
  qed
qed

lemma Split_no_sep: "sep \<notin> set xs \<Longrightarrow> Split xs sep = [xs]"
  by (induction xs) auto

lemma Split_at_sep: "sep \<notin> set xs \<Longrightarrow> Split (xs @ sep # r) sep = xs # Split r sep"
  by (induction xs) auto

lemma Sscanf_d_digits:
  assumes ne: "s \<noteq> []" and digits: "\<forall>x \<in> set s. isDigit x" and small: "parseDecimal s < 2 ^ 63"
  shows "Sscanf_d s = int (parseDecimal s)"
proof -
  obtain c cs where d: "s = c # cs" using ne by (cases s) auto
  have c: "isDigit c" using digits d by simp
  have 1: "dropWhile isSpace s = s"
    using c unfolding d by (auto simp add: isSpace_def isDigit_def)
  have 2: "(case s of
              [] \<Rightarrow> (False, [])
            | c # cs \<Rightarrow> if c = CHR ''+'' then (False, cs)
                       else if c = CHR ''-'' then (True, cs)
                       else (False, s)) = (False, s)"
    using c unfolding d by (auto simp add: isDigit_def)
  have 3: "takeWhile (\<lambda>c. isDigit c \<or> c = CHR ''_'') s = s"
    using digits by (auto simp add: takeWhile_eq_all_conv)
  have 4: "CHR ''_'' \<notin> set s" using digits by (auto simp add: isDigit_def)
  have 5: "int (parseDecimal s) < 2 ^ 63"
    using small by (metis of_nat_less_iff of_nat_numeral of_nat_power)
  have "Sscanf_d s =
      (let v = int (parseDecimal s)
       in if s = [] \<or> CHR ''_'' \<in> set s \<or> v < - (2 ^ 63) \<or> v \<ge> 2 ^ 63 then 0 else v)"
    by (simp only: Sscanf_d_def Let_def 1 2 3 prod.case if_False)
  with ne 4 5 show ?thesis by (simp add: Let_def)
qed

lemma Sscanf_d_decimal:
  assumes "n < 2 ^ 63"
  shows "Sscanf_d (decimal n) = int n"
proof -
  have "\<forall>x \<in> set (decimal n). isDigit x"
    using decimal_digits [of n] unfolding isDigit_def by blast
  from Sscanf_d_digits [OF decimal_nonempty this] assms show ?thesis
    by (simp add: parseDecimal_decimal)
qed

lemma HasPrefix_nil: "HasPrefix r []"
  by (simp add: HasPrefix_def)

lemma HasPrefix_ipv4_one:
  "HasPrefix (ipv4String a b c d) (decimal m @ CHR ''.'' # []) \<longleftrightarrow> unat a = m"
  unfolding ipv4String_def
  by (simp add: HasPrefix_dot decimal_no_dot HasPrefix_nil decimal_inj)

lemma HasPrefix_ipv4_two:
  "HasPrefix (ipv4String a b c d) (decimal m @ CHR ''.'' # (decimal n @ CHR ''.'' # [])) \<longleftrightarrow>
     unat a = m \<and> unat b = n"
  unfolding ipv4String_def
  by (simp add: HasPrefix_dot decimal_no_dot HasPrefix_nil decimal_inj)

lemma Split_ipv4:
  "Split (ipv4String a b c d) CHR ''.'' =
     [decimal (unat a), decimal (unat b), decimal (unat c), decimal (unat d)]"
  unfolding ipv4String_def
  by (simp add: Split_at_sep Split_no_sep decimal_no_dot)

lemma isLocalIP_ipv4:
  "isLocalIP (ipv4String a b c d) \<longleftrightarrow>
     unat a = 10 \<or> (unat a = 192 \<and> unat b = 168) \<or> unat a = 127 \<or>
     (unat a = 169 \<and> unat b = 254) \<or> (unat a = 172 \<and> 16 \<le> unat b \<and> unat b \<le> 31)"
proof -
  have p: "''10.'' = decimal 10 @ CHR ''.'' # []"
    "''192.168.'' = decimal 192 @ CHR ''.'' # (decimal 168 @ CHR ''.'' # [])"
    "''127.'' = decimal 127 @ CHR ''.'' # []"
    "''169.254.'' = decimal 169 @ CHR ''.'' # (decimal 254 @ CHR ''.'' # [])"
    "''172.'' = decimal 172 @ CHR ''.'' # []"
    by code_simp+
  have "unat b < 2 ^ 63"
    using unsigned_less [of b, where 'a = nat] by simp
  then have s: "Sscanf_d (decimal (unat b)) = int (unat b)" by (rule Sscanf_d_decimal)
  have g: "(16 \<le> int n \<and> int n \<le> 31) \<longleftrightarrow> (16 \<le> n \<and> n \<le> 31)" for n by auto
  have c: "(16 \<le> Sscanf_d (decimal (unat b)) \<and> Sscanf_d (decimal (unat b)) \<le> 31) \<longleftrightarrow>
      (16 \<le> unat b \<and> unat b \<le> 31)"
    unfolding s by (rule g)
  show ?thesis
    unfolding isLocalIP_def p HasPrefix_ipv4_one HasPrefix_ipv4_two Split_ipv4
    using c by (auto simp add: Let_def)
qed

lemma isLocalIP_no_dot: "CHR ''.'' \<notin> set ip \<Longrightarrow> \<not> isLocalIP ip"
proof -
  assume n: "CHR ''.'' \<notin> set ip"
  have "\<not> HasPrefix ip (xs @ CHR ''.'' # ys)" for xs ys
  proof
    assume "HasPrefix ip (xs @ CHR ''.'' # ys)"
    then have "take (length (xs @ CHR ''.'' # ys)) ip = xs @ CHR ''.'' # ys"
      by (simp add: HasPrefix_def)
    then have "CHR ''.'' \<in> set (take (length (xs @ CHR ''.'' # ys)) ip)" by simp
    then show False using n by (meson in_set_takeD)
  qed
  from this [of "''10''" "[]"] this [of "''192''" "''168.''"] this [of "''127''" "[]"]
    this [of "''169''" "''254.''"] this [of "''172''" "[]"]
  show ?thesis by (simp add: isLocalIP_def)
qed

lemma cidr8: "a < 256 \<Longrightarrow> b < 256 \<Longrightarrow> c < 256 \<Longrightarrow> d < 256 \<Longrightarrow>
  (((a * 256 + b) * 256 + c) * 256 + d) div 2 ^ 24 = (a :: nat)"
  by simp

lemma cidr16: "a < 256 \<Longrightarrow> b < 256 \<Longrightarrow> c < 256 \<Longrightarrow> d < 256 \<Longrightarrow>
  (((a * 256 + b) * 256 + c) * 256 + d) div 2 ^ 16 = (a :: nat) * 256 + b"
  by simp

lemma cidr12: "a < 256 \<Longrightarrow> b < 256 \<Longrightarrow> c < 256 \<Longrightarrow> d < 256 \<Longrightarrow>
  (((a * 256 + b) * 256 + c) * 256 + d) div 2 ^ 20 = (a :: nat) * 16 + b div 16"
  by simp


lemma div16_one: "(b::nat) div 16 = 1 \<longleftrightarrow> 16 \<le> b \<and> b \<le> 31"
  by presburger

lemma split_nibble: "q < 16 \<Longrightarrow> (a::nat) * 16 + q = 172 * 16 + 1 \<longleftrightarrow> a = 172 \<and> q = 1"
  by presburger

lemma isLocalRange_octets:
  "isLocalRange a b c d \<longleftrightarrow>
     unat a = 10 \<or> (unat a = 172 \<and> 16 \<le> unat b \<and> unat b \<le> 31) \<or>
     (unat a = 192 \<and> unat b = 168) \<or> unat a = 127 \<or> (unat a = 169 \<and> unat b = 254)"
proof -
  have b: "unat a < 256" "unat b < 256" "unat c < 256" "unat d < 256"
    using unsigned_less [of a, where 'a = nat] unsigned_less [of b, where 'a = nat]
      unsigned_less [of c, where 'a = nat] unsigned_less [of d, where 'a = nat] by simp_all
  have v8: "ipv4Value a b c d div 2 ^ (32 - 8) = unat a"
    unfolding ipv4Value_def using cidr8 [OF b] by simp
  have v16: "ipv4Value a b c d div 2 ^ (32 - 16) = unat a * 256 + unat b"
    unfolding ipv4Value_def using cidr16 [OF b] by simp
  have v12: "ipv4Value a b c d div 2 ^ (32 - 12) = unat a * 16 + unat b div 16"
    unfolding ipv4Value_def using cidr12 [OF b] by simp
  have n: "ipv4Value 10 0 0 0 div 2 ^ (32 - 8) = 10"
    "ipv4Value 172 16 0 0 div 2 ^ (32 - 12) = 172 * 16 + 1"
    "ipv4Value 192 168 0 0 div 2 ^ (32 - 16) = 192 * 256 + 168"
    "ipv4Value 127 0 0 0 div 2 ^ (32 - 8) = 127"
    "ipv4Value 169 254 0 0 div 2 ^ (32 - 16) = 169 * 256 + 254"
    by (simp_all add: ipv4Value_def)
  have "unat b div 16 < 16" using b(2) by simp
  from split_nibble [OF this, of "unat a"] div16_one [of "unat b"]
  have m: "unat a * 16 + unat b div 16 = 172 * 16 + 1 \<longleftrightarrow>
      unat a = 172 \<and> 16 \<le> unat b \<and> unat b \<le> 31"
    by blast
  have k: "unat a * 256 + unat b = 192 * 256 + 168 \<longleftrightarrow> unat a = 192 \<and> unat b = 168"
    "unat a * 256 + unat b = 169 * 256 + 254 \<longleftrightarrow> unat a = 169 \<and> unat b = 254"
    using b by presburger+
  show ?thesis
    unfolding isLocalRange_def inCIDR_def v8 v16 v12 n m k by (rule refl)
qed

lemma determineDirection_cases:
  "determineDirection info =
     (if isLocalIP (SrcIP info) \<and> \<not> isLocalIP (DstIP info) then
        info\<lparr>Direction := ''send'', RemoteIP := DstIP info,
             LocalPort := SrcPort info, RemotePort := DstPort info\<rparr>
      else if \<not> isLocalIP (SrcIP info) \<and> isLocalIP (DstIP info) then
        info\<lparr>Direction := ''recv'', RemoteIP := SrcIP info,
             LocalPort := DstPort info, RemotePort := SrcPort info\<rparr>
      else if \<not> isLocalIP (SrcIP info) \<and> \<not> isLocalIP (DstIP info) then
        info\<lparr>Direction := ''send'', RemoteIP := DstIP info,
             LocalPort := SrcPort info, RemotePort := DstPort info\<rparr>
      else
        info\<lparr>Direction := ''local'', RemoteIP := DstIP info,
             LocalPort := SrcPort info, RemotePort := DstPort info\<rparr>)"
  by (simp add: determineDirection_def Let_def)

lemma direction_by_locality:
  fixes info :: PacketInfo
  assumes "srcLocal = isLocalIP (SrcIP info)" and "dstLocal = isLocalIP (DstIP info)"
  shows "(srcLocal \<and> \<not> dstLocal \<longrightarrow>
            Direction (determineDirection info) = ''send'' \<and>
            RemoteIP (determineDirection info) = DstIP info) \<and>
         (\<not> srcLocal \<and> dstLocal \<longrightarrow>
            Direction (determineDirection info) = ''recv'' \<and>
            RemoteIP (determineDirection info) = SrcIP info) \<and>
         (\<not> srcLocal \<and> \<not> dstLocal \<longrightarrow>
            Direction (determineDirection info) = ''send'' \<and>
            RemoteIP (determineDirection info) = DstIP info) \<and>
         (srcLocal \<and> dstLocal \<longrightarrow>
            Direction (determineDirection info) = ''local'' \<and>
            RemoteIP (determineDirection info) = DstIP info)"
  unfolding assms by (simp add: determineDirection_cases)

lemma parseDNS_addresses:
  "SrcIP (parseDNS packet info) = SrcIP info" "DstIP (parseDNS packet info) = DstIP info"
  by (simp_all add: parseDNS_def Let_def split: option.splits list.splits)

lemma transport_addresses:
  assumes "NetworkLayer packet = Some (src, dst)"
  shows "SrcIP (parseTransportLayer packet (parseNetworkLayer packet (newPacketInfo packet))) = src"
    "DstIP (parseTransportLayer packet (parseNetworkLayer packet (newPacketInfo packet))) = dst"
  using assms
  by (simp_all add: parseTransportLayer_def parseNetworkLayer_def split: option.splits)

lemma Parse_direction:
  assumes P: "Parse now packet p = Some (Some info, p')"
    and N: "NetworkLayer packet = Some (src, dst)"
  shows "\<exists>i. info = determineDirection i \<and> SrcIP i = src \<and> DstIP i = dst"
proof -
  let ?base = "parseTransportLayer packet (parseNetworkLayer packet (newPacketInfo packet))"
  note B = transport_addresses [OF N]
  obtain data ready flowKey sr
    where pp: "ProcessPacket now packet (reassembler p) = ((data, ready, flowKey), sr)"
    by (metis prod.exhaust)
  have ready: ready
    using P pp by (cases ready) (simp_all add: Parse_not_ready)
  show ?thesis
  proof (cases "data = []")
    case False
    obtain i where i: "parseTLS (?base\<lparr>Payload := data\<rparr>) = Some i"
      using parseTLS_total by blast
    have "info = determineDirection i"
      using Parse_reassembled [OF pp [unfolded ready [THEN eqTrueI]] False i] P by simp
    moreover have "SrcIP i = src \<and> DstIP i = dst"
      using parseTLS_fields(8,9) [OF i] B by simp
    ultimately show ?thesis by blast
  next
    case True
    let ?a = "case ApplicationLayer packet of
                Some appLayer \<Rightarrow> ?base\<lparr>AppProtocol := fst appLayer\<rparr> | None \<Rightarrow> ?base"
    have a: "SrcIP ?a = src" "DstIP ?a = dst"
      using B by (simp_all split: option.splits)
    obtain i where i: "parseApplicationLayer packet ?base = Some i"
      using parseApplicationLayer_total by blast
    have info: "info = determineDirection i"
      using Parse_raw [OF pp [unfolded ready [THEN eqTrueI] True] i] P by simp
    obtain j where j: "parseTLS ?a = Some j" using parseTLS_total by blast
    from i j have "i = ?a \<or> i = j \<or> i = parseDNS packet j"
      by (auto simp add: parseApplicationLayer_def Let_def split: if_splits)
    with a parseTLS_fields(8,9) [OF j] have "SrcIP i = src \<and> DstIP i = dst"
      by (auto simp add: parseDNS_addresses)
    with info show ?thesis by blast
  qed
qed

text \<open>
  Claim C8.  On the text of an IPv4 address \<open>isLocalIP\<close> holds exactly when the address
  lies in 10.0.0.0/8, 172.16.0.0/12, 192.168.0.0/16, 127.0.0.0/8 or 169.254.0.0/16, and
  it holds of no address text without a dot (the IPv6 texts).  Hence, for source and
  destination IPv4 addresses: local to remote is \<open>send\<close> with the destination as remote
  IP, remote to local is \<open>recv\<close> with the source as remote IP, remote to remote is
  \<open>send\<close> with the destination, local to local is \<open>local\<close> with the destination; this
  holds of \<open>determineDirection\<close> and of every \<open>PacketInfo\<close> that \<open>Parse\<close> returns.
\<close>

theorem determineDirection_by_ranges:
  "(\<forall>a b c d. isLocalIP (ipv4String a b c d) \<longleftrightarrow> isLocalRange a b c d)
   \<and>
   (\<forall>ip. CHR ''.'' \<notin> set ip \<longrightarrow> \<not> isLocalIP ip)
   \<and>
   (\<forall>(info :: PacketInfo) s1 s2 s3 s4 d1 d2 d3 d4 srcLocal dstLocal.
      SrcIP info = ipv4String s1 s2 s3 s4 \<and> DstIP info = ipv4String d1 d2 d3 d4 \<and>
      srcLocal = isLocalRange s1 s2 s3 s4 \<and> dstLocal = isLocalRange d1 d2 d3 d4 \<longrightarrow>
        (srcLocal \<and> \<not> dstLocal \<longrightarrow>
           Direction (determineDirection info) = ''send'' \<and>
           RemoteIP (determineDirection info) = DstIP info) \<and>
        (\<not> srcLocal \<and> dstLocal \<longrightarrow>
           Direction (determineDirection info) = ''recv'' \<and>
           RemoteIP (determineDirection info) = SrcIP info) \<and>
        (\<not> srcLocal \<and> \<not> dstLocal \<longrightarrow>
           Direction (determineDirection info) = ''send'' \<and>
           RemoteIP (determineDirection info) = DstIP info) \<and>
        (srcLocal \<and> dstLocal \<longrightarrow>
           Direction (determineDirection info) = ''local'' \<and>
           RemoteIP (determineDirection info) = DstIP info))
   \<and>
   (\<forall>info :: PacketInfo.
      CHR ''.'' \<notin> set (SrcIP info) \<and> CHR ''.'' \<notin> set (DstIP info) \<longrightarrow>
        Direction (determineDirection info) = ''send'' \<and>
        RemoteIP (determineDirection info) = DstIP info)
   \<and>
   (\<forall>now packet p info p' s1 s2 s3 s4 d1 d2 d3 d4 srcLocal dstLocal.
      Parse now packet p = Some (Some info, p') \<and>
      NetworkLayer packet = Some (ipv4String s1 s2 s3 s4, ipv4String d1 d2 d3 d4) \<and>
      srcLocal = isLocalRange s1 s2 s3 s4 \<and> dstLocal = isLocalRange d1 d2 d3 d4 \<longrightarrow>
        (srcLocal \<and> \<not> dstLocal \<longrightarrow>
           Direction info = ''send'' \<and> RemoteIP info = ipv4String d1 d2 d3 d4) \<and>
        (\<not> srcLocal \<and> dstLocal \<longrightarrow>
           Direction info = ''recv'' \<and> RemoteIP info = ipv4String s1 s2 s3 s4) \<and>
        (\<not> srcLocal \<and> \<not> dstLocal \<longrightarrow>
           Direction info = ''send'' \<and> RemoteIP info = ipv4String d1 d2 d3 d4) \<and>
        (srcLocal \<and> dstLocal \<longrightarrow>
           Direction info = ''local'' \<and> RemoteIP info = ipv4String d1 d2 d3 d4))"
proof -
  have A: "isLocalIP (ipv4String a b c d) \<longleftrightarrow> isLocalRange a b c d" for a b c d
    unfolding isLocalIP_ipv4 isLocalRange_octets by blast
  have B: "\<not> isLocalIP ip" if "CHR ''.'' \<notin> set ip" for ip
    using that by (rule isLocalIP_no_dot)
  have C: "(srcLocal \<and> \<not> dstLocal \<longrightarrow>
           Direction (determineDirection info) = ''send'' \<and>
           RemoteIP (determineDirection info) = DstIP info) \<and>
        (\<not> srcLocal \<and> dstLocal \<longrightarrow>
           Direction (determineDirection info) = ''recv'' \<and>
           RemoteIP (determineDirection info) = SrcIP info) \<and>
        (\<not> srcLocal \<and> \<not> dstLocal \<longrightarrow>
           Direction (determineDirection info) = ''send'' \<and>
           RemoteIP (determineDirection info) = DstIP info) \<and>
        (srcLocal \<and> dstLocal \<longrightarrow>
           Direction (determineDirection info) = ''local'' \<and>
           RemoteIP (determineDirection info) = DstIP info)"
    if "SrcIP info = ipv4String s1 s2 s3 s4 \<and> DstIP info = ipv4String d1 d2 d3 d4 \<and>
      srcLocal = isLocalRange s1 s2 s3 s4 \<and> dstLocal = isLocalRange d1 d2 d3 d4"
    for info :: PacketInfo and s1 s2 s3 s4 d1 d2 d3 d4 srcLocal dstLocal
    by (rule direction_by_locality) (use that A in simp_all)
  have D: "(srcLocal \<and> \<not> dstLocal \<longrightarrow>
           Direction info = ''send'' \<and> RemoteIP info = ipv4String d1 d2 d3 d4) \<and>
        (\<not> srcLocal \<and> dstLocal \<longrightarrow>
           Direction info = ''recv'' \<and> RemoteIP info = ipv4String s1 s2 s3 s4) \<and>
        (\<not> srcLocal \<and> \<not> dstLocal \<longrightarrow>
           Direction info = ''send'' \<and> RemoteIP info = ipv4String d1 d2 d3 d4) \<and>
        (srcLocal \<and> dstLocal \<longrightarrow>
           Direction info = ''local'' \<and> RemoteIP info = ipv4String d1 d2 d3 d4)"
    if h: "Parse now packet p = Some (Some info, p') \<and>
      NetworkLayer packet = Some (ipv4String s1 s2 s3 s4, ipv4String d1 d2 d3 d4) \<and>
      srcLocal = isLocalRange s1 s2 s3 s4 \<and> dstLocal = isLocalRange d1 d2 d3 d4"
    for now packet p info p' s1 s2 s3 s4 d1 d2 d3 d4 srcLocal dstLocal
  proof -
    from h Parse_direction [of now packet p info p'] obtain i
      where i: "info = determineDirection i" "SrcIP i = ipv4String s1 s2 s3 s4"
        "DstIP i = ipv4String d1 d2 d3 d4"
      by blast
    from C [of i s1 s2 s3 s4 d1 d2 d3 d4 srcLocal dstLocal] i h show ?thesis by simp
  qed
  have E: "Direction (determineDirection info) = ''send'' \<and>
        RemoteIP (determineDirection info) = DstIP info"
    if "CHR ''.'' \<notin> set (SrcIP info) \<and> CHR ''.'' \<notin> set (DstIP info)"
    for info :: PacketInfo
    using that B [of "SrcIP info"] B [of "DstIP info"] by (simp add: determineDirection_cases)
  from A B C D E show ?thesis by blast
qed

theorem determineDirection_by_ranges_witness:
  "SrcIP (parseNetworkLayer (exampleTCP 0 []) (newPacketInfo (exampleTCP 0 []))) = ipv4String 10 0 0 5 \<and>
   DstIP (parseNetworkLayer (exampleTCP 0 []) (newPacketInfo (exampleTCP 0 []))) = ipv4String 93 184 216 34 \<and>
   isLocalRange 10 0 0 5 \<and> \<not> isLocalRange 93 184 216 34 \<and>
   Direction (determineDirection (parseNetworkLayer (exampleTCP 0 []) (newPacketInfo (exampleTCP 0 []))))
     = ''send'' \<and>
   RemoteIP (determineDirection (parseNetworkLayer (exampleTCP 0 []) (newPacketInfo (exampleTCP 0 []))))
     = ''93.184.216.34'' \<and>
   SrcIP (parseNetworkLayer (exampleDNS []) (newPacketInfo (exampleDNS []))) = ipv4String 8 8 8 8 \<and>
   DstIP (parseNetworkLayer (exampleDNS []) (newPacketInfo (exampleDNS []))) = ipv4String 10 0 0 5 \<and>
   \<not> isLocalRange 8 8 8 8 \<and>
   Direction (determineDirection (parseNetworkLayer (exampleDNS []) (newPacketInfo (exampleDNS []))))
     = ''recv'' \<and>
   RemoteIP (determineDirection (parseNetworkLayer (exampleDNS []) (newPacketInfo (exampleDNS []))))
     = ''8.8.8.8''"
proof -
  let ?i = "parseNetworkLayer (exampleTCP 0 []) (newPacketInfo (exampleTCP 0 []))"
  let ?j = "parseNetworkLayer (exampleDNS []) (newPacketInfo (exampleDNS []))"
  have a: "SrcIP ?i = ipv4String 10 0 0 5 \<and> DstIP ?i = ipv4String 93 184 216 34"
    "SrcIP ?j = ipv4String 8 8 8 8 \<and> DstIP ?j = ipv4String 10 0 0 5"
    by code_simp+
  have r: "True = isLocalRange 10 0 0 5" "False = isLocalRange 93 184 216 34"
    "False = isLocalRange 8 8 8 8"
    by (simp_all add: isLocalRange_octets)
  from a r have h: "SrcIP ?i = ipv4String 10 0 0 5 \<and> DstIP ?i = ipv4String 93 184 216 34 \<and>
      True = isLocalRange 10 0 0 5 \<and> False = isLocalRange 93 184 216 34"
    and k: "SrcIP ?j = ipv4String 8 8 8 8 \<and> DstIP ?j = ipv4String 10 0 0 5 \<and>
      False = isLocalRange 8 8 8 8 \<and> True = isLocalRange 10 0 0 5"
    by blast+
  have d: "DstIP ?i = ''93.184.216.34''" "SrcIP ?j = ''8.8.8.8''"
    by (simp_all add: parseNetworkLayer_def exampleTCP_def exampleDNS_def)
  from determineDirection_by_ranges [THEN conjunct2, THEN conjunct2, THEN conjunct1,
      rule_format, OF h]
    determineDirection_by_ranges [THEN conjunct2, THEN conjunct2, THEN conjunct1,
      rule_format, OF k] a r d
  show ?thesis by (simp only: simp_thms)
qed

section \<open>Bytes beyond a completed record\<close>

text \<open>
  Claim C10.  When the buffer of a TCP packet's flow, after the mutation, starts with
  0x16 and holds the \<open>5 + L\<close> bytes its header declares, \<open>ProcessPacket\<close> returns ready
  with only the first \<open>5 + L\<close> bytes and deletes the flow's entry.  The bytes buffered
  beyond the record are in neither: the payload the parser is given is those \<open>5 + L\<close>
  bytes, and the buffer of the flow's next payload packet is that packet's payload alone.
\<close>

theorem ProcessPacket_discards_excess:
  assumes "TCPLayer packet = Some tcp" and "tcp_Payload tcp \<noteq> []"
    and "buf = currentBuffer now packet (reassembler p)"
    and "5 \<le> length buf" and "buf ! 0 = 0x16"
    and "L = unat (buf ! 3) * 256 + unat (buf ! 4)"
    and "5 + L \<le> length buf"
    and "flowKey = flowKeyOf packet tcp"
  shows "\<exists>sr'.
           ProcessPacket now packet (reassembler p) = ((take (5 + L) buf, True, flowKey), sr') \<and>
           length (take (5 + L) buf) = 5 + L \<and>
           buf = take (5 + L) buf @ drop (5 + L) buf \<and>
           streams sr' flowKey = None \<and>
           (\<forall>now' packet' seq' payload'.
              tcpSegment packet' flowKey seq' payload' \<longrightarrow>
              currentBuffer now' packet' sr' = payload') \<and>
           (\<exists>info. Parse now packet p = Some (Some info, p\<lparr>reassembler := sr'\<rparr>) \<and>
              Payload info = take (5 + L) buf)"
proof -
  let ?sr' = "(reassembler p)\<lparr>streams := (streams (reassembler p))(flowKey := None)\<rparr>"
  let ?base = "parseTransportLayer packet (parseNetworkLayer packet (newPacketInfo packet))"
  have peek: "peekTLSRecord buf = (True, take (5 + L) buf)"
    using assms(4,5,6,7) by (simp add: peekTLSRecord_tls)
  have pp: "ProcessPacket now packet (reassembler p) = ((take (5 + L) buf, True, flowKey), ?sr')"
    using ProcessPacket_peek [OF assms(1,2), of now "reassembler p"] peek assms(3,8) by simp
  have len: "length (take (5 + L) buf) = 5 + L" using assms(7) by simp
  have gone: "streams ?sr' flowKey = None" by simp
  have nxt: "currentBuffer now' packet' ?sr' = payload'"
    if "tcpSegment packet' flowKey seq' payload'" for now' packet' seq' payload'
  proof -
    from that obtain tcp' where "TCPLayer packet' = Some tcp'" "flowKeyOf packet' tcp' = flowKey"
      "tcp_Payload tcp' = payload'"
      by (auto simp: tcpSegment_def split: option.splits)
    with gone show ?thesis by (simp add: currentBuffer_fresh)
  qed
  have ne: "take (5 + L) buf \<noteq> []" using len by auto
  obtain i where i: "parseTLS (?base\<lparr>Payload := take (5 + L) buf\<rparr>) = Some i"
    using parseTLS_total by blast
  have "Parse now packet p = Some (Some (determineDirection i), p\<lparr>reassembler := ?sr'\<rparr>)"
    by (rule Parse_reassembled [OF pp ne i])
  moreover have "Payload (determineDirection i) = take (5 + L) buf"
    using parseTLS_fields(1) [OF i] by (simp add: determineDirection_fields)
  ultimately have parse: "\<exists>info. Parse now packet p = Some (Some info, p\<lparr>reassembler := ?sr'\<rparr>) \<and>
              Payload info = take (5 + L) buf"
    by blast
  from pp len gone nxt parse show ?thesis by (intro exI [of _ ?sr']) simp
qed

theorem ProcessPacket_discards_excess_witness:
  "currentBuffer 1 (exampleTCP 1000 [0x16, 0x03, 0x03, 0x00, 0x05, 1, 2, 3, 4, 5, 0x17, 0x03])
     (reassembler NewPacketParser)
     = [0x16, 0x03, 0x03, 0x00, 0x05, 1, 2, 3, 4, 5, 0x17, 0x03] \<and>
   fst (ProcessPacket 1 (exampleTCP 1000 [0x16, 0x03, 0x03, 0x00, 0x05, 1, 2, 3, 4, 5, 0x17, 0x03])
         (reassembler NewPacketParser))
     = ([0x16, 0x03, 0x03, 0x00, 0x05, 1, 2, 3, 4, 5], True, exampleFlow) \<and>
   currentBuffer 2 (exampleTCP 1012 [0x03, 0x00, 0x01, 0x00])
     (snd (ProcessPacket 1 (exampleTCP 1000 [0x16, 0x03, 0x03, 0x00, 0x05, 1, 2, 3, 4, 5, 0x17, 0x03])
         (reassembler NewPacketParser)))
     = [0x03, 0x00, 0x01, 0x00] \<and>
   map_option (map_option Payload \<circ> fst)
     (Parse 1 (exampleTCP 1000 [0x16, 0x03, 0x03, 0x00, 0x05, 1, 2, 3, 4, 5, 0x17, 0x03]) NewPacketParser)
     = Some (Some [0x16, 0x03, 0x03, 0x00, 0x05, 1, 2, 3, 4, 5])"
proof -
  let ?b = "[0x16, 0x03, 0x03, 0x00, 0x05, 1, 2, 3, 4, 5, 0x17, 0x03] :: bytes"
  let ?p = "exampleTCP 1000 ?b"
  have buf: "?b = currentBuffer 1 ?p (reassembler NewPacketParser)"
    by (simp add: currentBuffer_fresh [OF TCPLayer_example] NewPacketParser_def
        NewStreamReassembler_def)
  have fk: "exampleFlow = flowKeyOf ?p
      \<lparr>tcp_SrcPort = ''50000'', tcp_DstPort = ''443(https)'', tcp_Seq = 1000, tcp_Ack = 0,
        tcp_SYN = False, tcp_ACK = True, tcp_FIN = False, tcp_RST = False, tcp_PSH = True,
        tcp_URG = False, tcp_Payload = ?b\<rparr>"
    by (simp add: flowKeyOf_def exampleTCP_def exampleFlow_def)
  from ProcessPacket_discards_excess [OF TCPLayer_example _ buf _ _ refl _ fk, simplified]
  obtain sr' info where
    r: "ProcessPacket 1 ?p (reassembler NewPacketParser) = ((take 10 ?b, True, exampleFlow), sr')"
    and n: "\<forall>now' packet' seq' payload'.
              tcpSegment packet' exampleFlow seq' payload' \<longrightarrow>
              currentBuffer now' packet' sr' = payload'"
    and P: "Parse 1 ?p NewPacketParser = Some (Some info, NewPacketParser\<lparr>reassembler := sr'\<rparr>)"
      "Payload info = take 10 ?b"
    by auto
  from n tcpSegment_example [of 1012 "[0x03, 0x00, 0x01, 0x00]"]
  have "currentBuffer 2 (exampleTCP 1012 [0x03, 0x00, 0x01, 0x00]) sr' = [0x03, 0x00, 0x01, 0x00]"
    by blast
  with r P buf [symmetric] show ?thesis by simp
qed

end
